theory Spec2Isabelle
  imports
    Main
    "HOL-Library.Char_ord"
    "HOL-Library.Multiset"
    "HOL-Library.List_Lexorder"
    "HOL-Library.Product_Lexorder"
begin

section \<open>The market research scout: data model\<close>

text \<open>
  The development embeds \<^verbatim>\<open>tools/agents/market_research_scout.py\<close>.
  Python \<^verbatim>\<open>str\<close> is modelled as \<^typ>\<open>string\<close>; the model covers ASCII text, for which
  \<^verbatim>\<open>str.lower\<close> maps \<^verbatim>\<open>A..Z\<close> to \<^verbatim>\<open>a..z\<close> and the order of \<^verbatim>\<open>str\<close> is the
  lexicographic order of the characters. Python \<^verbatim>\<open>int\<close> is \<^typ>\<open>int\<close>.

  An aware UTC \<^verbatim>\<open>datetime\<close> is its position on the time line, in microseconds since
  1970-01-01T00:00:00Z (the resolution of \<^verbatim>\<open>datetime\<close>), so that \<^verbatim>\<open>now - published_at\<close>
  is a difference of integers and \<^verbatim>\<open>timedelta(days=n)\<close> is \<open>n * 86400000000\<close>.
\<close>

type_synonym datetime = int

definition timedelta_days :: "int \<Rightarrow> int" where
  "timedelta_days n = n * 86400000000"

text \<open>
  \<^verbatim>\<open>int(dt.timestamp())\<close>: the whole seconds since the epoch, truncated towards zero
  as \<^verbatim>\<open>int()\<close> truncates.
\<close>

definition timestamp_int :: "datetime \<Rightarrow> int" where
  "timestamp_int dt = (if 0 \<le> dt then dt div 1000000 else - ((- dt) div 1000000))"

record FeedItem =
  title :: string
  link :: string
  published_at :: "datetime option"
  source_feed :: string

record Opportunity =
  item :: FeedItem
  score :: int
  category :: string
  matched_terms :: "string list"

text \<open>\<^verbatim>\<open>KEYWORD_WEIGHTS\<close>, a dict in declaration order: category, terms, weight.\<close>

definition KEYWORD_WEIGHTS :: "(string \<times> string list \<times> int) list" where
  "KEYWORD_WEIGHTS =
    [(''pricing'',
        [''pricing'', ''price'', ''billing'', ''subscription'', ''usage-based'', ''seat''], 4),
     (''ai_automation'',
        [''ai'', ''agent'', ''automation'', ''copilot'', ''llm'', ''assistant''], 4),
     (''developer_workflow'',
        [''release'', ''changelog'', ''github'', ''workflow'', ''developer'', ''devops''], 3),
     (''compliance'',
        [''security'', ''compliance'', ''soc2'', ''audit'', ''gdpr'', ''hipaa''], 3),
     (''go_to_market'',
        [''growth'', ''distribution'', ''marketplace'', ''partnership'', ''channel''], 2)]"

section \<open>Python strings and dicts\<close>

text \<open>
  \<^verbatim>\<open>str.lower\<close> on ASCII: the codes 65..90 of \<^verbatim>\<open>A..Z\<close> become 97..122, which sets
  the bit of value 32.
\<close>

definition lower_char :: "char \<Rightarrow> char" where
  "lower_char c =
    (let n = (of_char c :: nat) in
     if 65 \<le> n \<and> n \<le> 90
     then Char (digit0 c) (digit1 c) (digit2 c) (digit3 c) (digit4 c) True (digit6 c) (digit7 c)
     else c)"

definition lower :: "string \<Rightarrow> string" where
  "lower s = map lower_char s"

text \<open>\<^verbatim>\<open>term in text\<close> on strings: \<open>term\<close> occurs in \<open>text\<close> as a contiguous run.\<close>

fun starts_with :: "string \<Rightarrow> string \<Rightarrow> bool" where
  "starts_with [] s = True"
| "starts_with (c # cs) [] = False"
| "starts_with (c # cs) (d # ds) = (c = d \<and> starts_with cs ds)"

fun str_in :: "string \<Rightarrow> string \<Rightarrow> bool" where
  "str_in t [] = (t = [])"
| "str_in t (d # ds) = (starts_with t (d # ds) \<or> str_in t ds)"

text \<open>
  A Python dict keeps insertion order: \<^verbatim>\<open>d[k] = v\<close> replaces the value of a key that is
  present, where it stands, and appends a new key at the end.
\<close>

fun dict_set :: "('k \<times> 'v) list \<Rightarrow> 'k \<Rightarrow> 'v \<Rightarrow> ('k \<times> 'v) list" where
  "dict_set [] k v = [(k, v)]"
| "dict_set ((k', v') # kvs) k v =
    (if k' = k then (k, v) # kvs else (k', v') # dict_set kvs k v)"

section \<open>The scorer\<close>

text \<open>Lines 178-181: the loop over the terms of one category.\<close>

fun scan_terms :: "string \<Rightarrow> int \<Rightarrow> string list \<Rightarrow> int \<times> string list \<Rightarrow> int \<times> string list" where
  "scan_terms text weight [] (cat_score, matched) = (cat_score, matched)"
| "scan_terms text weight (t # ts) (cat_score, matched) =
    (if str_in t text
     then scan_terms text weight ts (cat_score + weight, matched @ [t])
     else scan_terms text weight ts (cat_score, matched))"

text \<open>
  Lines 176-184: the loop over the table. The state is \<^verbatim>\<open>total\<close>,
  \<^verbatim>\<open>category_scores\<close> and \<^verbatim>\<open>matched_terms\<close>.
\<close>

fun scan_categories ::
  "string \<Rightarrow> (string \<times> string list \<times> int) list \<Rightarrow>
   int \<times> (string \<times> int) list \<times> string list \<Rightarrow> int \<times> (string \<times> int) list \<times> string list" where
  "scan_categories text [] st = st"
| "scan_categories text ((cat, terms, weight) # rest) (tot, category_scores, matched) =
    (case scan_terms text weight terms (0, matched) of
      (cat_score, matched') \<Rightarrow>
        if cat_score > 0
        then scan_categories text rest
               (tot + cat_score, dict_set category_scores cat cat_score, matched')
        else scan_categories text rest (tot, category_scores, matched'))"

text \<open>
  \<^verbatim>\<open>max(xs, key=lambda x: x[1])\<close> on a non-empty list: the first element whose key no
  later element exceeds strictly. The scorer calls it on a non-empty dict only.
\<close>

fun max_by_snd :: "('a \<times> int) \<Rightarrow> ('a \<times> int) list \<Rightarrow> ('a \<times> int)" where
  "max_by_snd best [] = best"
| "max_by_snd best (x # xs) = (if snd x > snd best then max_by_snd x xs else max_by_snd best xs)"

text \<open>Line 171: the lowercased text the terms are looked up in.\<close>

definition haystack :: "FeedItem \<Rightarrow> string" where
  "haystack it = lower (title it @ '' '' @ link it)"

text \<open>
  \<^verbatim>\<open>score_item\<close>, lines 171-191: the locals \<^verbatim>\<open>total\<close>, \<^verbatim>\<open>category_scores\<close> and
  \<^verbatim>\<open>matched_terms\<close> as they stand at line 193. The clock reading \<open>now\<close> is the value
  of the one call of \<^verbatim>\<open>now_utc()\<close>, made when the item has a publish date (a
  \<^verbatim>\<open>datetime\<close> is always truthy).
\<close>

definition score_locals :: "datetime \<Rightarrow> FeedItem \<Rightarrow> int \<times> (string \<times> int) list \<times> string list" where
  "score_locals now it =
    (case scan_categories (haystack it) KEYWORD_WEIGHTS (0, [], []) of
      (tot, category_scores, matched) \<Rightarrow>
        (case published_at it of
          None \<Rightarrow> (tot, category_scores, matched)
        | Some d \<Rightarrow>
            (let age = now - d in
             if age \<le> timedelta_days 7 then (tot + 3, category_scores, matched)
             else if age \<le> timedelta_days 30 then (tot + 1, category_scores, matched)
             else (tot, category_scores, matched))))"

text \<open>\<^verbatim>\<open>score_item\<close>, lines 193-197.\<close>

definition score_item :: "datetime \<Rightarrow> FeedItem \<Rightarrow> Opportunity option" where
  "score_item now it =
    (case score_locals now it of
      (tot, category_scores, matched) \<Rightarrow>
        if tot < 4 then None
        else Some \<lparr> item = it, score = tot,
               category = (case category_scores of
                             [] \<Rightarrow> ''general''
                           | c # cs \<Rightarrow> fst (max_by_snd c cs)),
               matched_terms = sort (remdups matched) \<rparr>)"

section \<open>Ranking and selection\<close>

text \<open>
  Lines 359-364: \<^verbatim>\<open>list.sort\<close> is stable, as \<^const>\<open>sort_key\<close> is; the key is a pair,
  compared lexicographically.
\<close>

definition rank_key :: "Opportunity \<Rightarrow> int \<times> int" where
  "rank_key op =
    (- score op,
     - (case published_at (item op) of Some d \<Rightarrow> timestamp_int d | None \<Rightarrow> 0))"

definition rank_opportunities :: "Opportunity list \<Rightarrow> Opportunity list" where
  "rank_opportunities ops = sort_key rank_key ops"

text \<open>Line 365: \<^verbatim>\<open>opportunities[: max(0, args.max_opportunities)]\<close>.\<close>

definition take_top :: "int \<Rightarrow> Opportunity list \<Rightarrow> Opportunity list" where
  "take_top cap ops = take (nat (max 0 cap)) ops"

text \<open>Lines 345-351: the first item of every link survives.\<close>

fun dedupe :: "string set \<Rightarrow> FeedItem list \<Rightarrow> FeedItem list" where
  "dedupe seen_links [] = []"
| "dedupe seen_links (x # xs) =
    (if link x \<in> seen_links then dedupe seen_links xs
     else x # dedupe (insert (link x) seen_links) xs)"

text \<open>
  Lines 353-357. The clock is the sequence of the values \<^verbatim>\<open>now_utc()\<close> returns, and
  \<open>tick\<close> counts the calls made so far; \<^verbatim>\<open>score_item\<close> reads the clock for a dated item
  only.
\<close>

fun score_all :: "(nat \<Rightarrow> datetime) \<Rightarrow> nat \<Rightarrow> FeedItem list \<Rightarrow> Opportunity list \<times> nat" where
  "score_all clock tick [] = ([], tick)"
| "score_all clock tick (x # xs) =
    (let tick' = (case published_at x of None \<Rightarrow> tick | Some d \<Rightarrow> Suc tick) in
     case score_all clock tick' xs of
       (ops, tick'') \<Rightarrow>
         (case score_item (clock tick) x of
            None \<Rightarrow> (ops, tick'')
          | Some scored \<Rightarrow> (scored # ops, tick'')))"

section \<open>Python values, exceptions and files\<close>

text \<open>
  The board is what \<^verbatim>\<open>json.loads\<close> returns: \<^verbatim>\<open>None\<close>, a \<^verbatim>\<open>bool\<close>, an \<^verbatim>\<open>int\<close>, a
  \<^verbatim>\<open>str\<close>, a \<^verbatim>\<open>list\<close> or a \<^verbatim>\<open>dict\<close> with \<^verbatim>\<open>str\<close> keys, in insertion order. Numbers
  with a fraction or an exponent (\<^verbatim>\<open>float\<close>) are not modelled.
\<close>

datatype json =
  JNull | JBool bool | JInt int | JStr string | JArr "json list" | JObj "(string \<times> json) list"

text \<open>
  The exceptions a run can raise. \<open>Unmodelled\<close> is no exception: it marks a run that
  leaves the fragment of Python the embedding covers (two containers compared with
  \<^verbatim>\<open>==\<close>, a container formatted in an f-string, sort keys that are not strings).
\<close>

datatype py_error =
  AttributeError | TypeError | KeyError | JSONDecodeError | UnicodeDecodeError
  | IsADirectoryError | FileNotFoundError | Unmodelled

definition err_bind :: "'e + 'a \<Rightarrow> ('a \<Rightarrow> 'e + 'b) \<Rightarrow> 'e + 'b" where
  "err_bind m f = (case m of Inl e \<Rightarrow> Inl e | Inr x \<Rightarrow> f x)"

text \<open>Truth value of a value, as \<^verbatim>\<open>if x:\<close> tests it.\<close>

fun truthy :: "json \<Rightarrow> bool" where
  "truthy JNull = False"
| "truthy (JBool b) = b"
| "truthy (JInt i) = (i \<noteq> 0)"
| "truthy (JStr s) = (s \<noteq> [])"
| "truthy (JArr xs) = (xs \<noteq> [])"
| "truthy (JObj kvs) = (kvs \<noteq> [])"

text \<open>\<^verbatim>\<open>x.get(k, d)\<close>: only a dict has \<^verbatim>\<open>get\<close>.\<close>

fun py_get :: "json \<Rightarrow> string \<Rightarrow> json \<Rightarrow> py_error + json" where
  "py_get (JObj kvs) k d = Inr (case map_of kvs k of Some v \<Rightarrow> v | None \<Rightarrow> d)"
| "py_get JNull k d = Inl AttributeError"
| "py_get (JBool b) k d = Inl AttributeError"
| "py_get (JInt i) k d = Inl AttributeError"
| "py_get (JStr s) k d = Inl AttributeError"
| "py_get (JArr xs) k d = Inl AttributeError"

text \<open>\<^verbatim>\<open>x[k]\<close> with a \<^verbatim>\<open>str\<close> key \<open>k\<close>.\<close>

fun py_getitem :: "json \<Rightarrow> string \<Rightarrow> py_error + json" where
  "py_getitem (JObj kvs) k = (case map_of kvs k of Some v \<Rightarrow> Inr v | None \<Rightarrow> Inl KeyError)"
| "py_getitem JNull k = Inl TypeError"
| "py_getitem (JBool b) k = Inl TypeError"
| "py_getitem (JInt i) k = Inl TypeError"
| "py_getitem (JStr s) k = Inl TypeError"
| "py_getitem (JArr xs) k = Inl TypeError"

text \<open>\<^verbatim>\<open>x[k] = v\<close> with a \<^verbatim>\<open>str\<close> key \<open>k\<close>.\<close>

fun py_setitem :: "json \<Rightarrow> string \<Rightarrow> json \<Rightarrow> py_error + json" where
  "py_setitem (JObj kvs) k v = Inr (JObj (dict_set kvs k v))"
| "py_setitem JNull k v = Inl TypeError"
| "py_setitem (JBool b) k v = Inl TypeError"
| "py_setitem (JInt i) k v = Inl TypeError"
| "py_setitem (JStr s) k v = Inl TypeError"
| "py_setitem (JArr xs) k v = Inl TypeError"

text \<open>
  \<^verbatim>\<open>for x in v\<close>: the elements of a list, the characters of a string, the keys of a
  dict; nothing else is iterable.
\<close>

fun py_iter :: "json \<Rightarrow> py_error + json list" where
  "py_iter (JArr xs) = Inr xs"
| "py_iter (JStr s) = Inr (map (\<lambda>c. JStr [c]) s)"
| "py_iter (JObj kvs) = Inr (map (\<lambda>kv. JStr (fst kv)) kvs)"
| "py_iter JNull = Inl TypeError"
| "py_iter (JBool b) = Inl TypeError"
| "py_iter (JInt i) = Inl TypeError"

text \<open>
  \<^verbatim>\<open>a == b\<close>. \<^verbatim>\<open>True == 1\<close> and \<^verbatim>\<open>False == 0\<close> hold in Python; values of different
  kinds are otherwise unequal. Two lists or two dicts are outside the model.
\<close>

fun py_eq :: "json \<Rightarrow> json \<Rightarrow> py_error + bool" where
  "py_eq JNull b = Inr (b = JNull)"
| "py_eq (JStr s) b = Inr (b = JStr s)"
| "py_eq (JInt i) b = Inr (b = JInt i \<or> b = JBool (i = 1) \<and> (i = 0 \<or> i = 1))"
| "py_eq (JBool c) b = Inr (b = JBool c \<or> b = JInt (if c then 1 else 0))"
| "py_eq (JArr xs) b = (case b of JArr ys \<Rightarrow> Inl Unmodelled | _ \<Rightarrow> Inr False)"
| "py_eq (JObj kvs) b = (case b of JObj kvs' \<Rightarrow> Inl Unmodelled | _ \<Rightarrow> Inr False)"

text \<open>\<^verbatim>\<open>str(n)\<close> for an \<^verbatim>\<open>int\<close>.\<close>

function str_of_nat :: "nat \<Rightarrow> string" where
  "str_of_nat n =
    (if n < 10 then [''0123456789'' ! n]
     else str_of_nat (n div 10) @ [''0123456789'' ! (n mod 10)])"
  by pat_completeness auto
termination
  by (relation "measure id") auto

definition str_of_int :: "int \<Rightarrow> string" where
  "str_of_int i = (if i < 0 then CHR ''-'' # str_of_nat (nat (- i)) else str_of_nat (nat i))"

text \<open>The text an f-string puts for \<^verbatim>\<open>{x}\<close>.\<close>

fun py_format :: "json \<Rightarrow> py_error + string" where
  "py_format (JStr s) = Inr s"
| "py_format (JInt i) = Inr (str_of_int i)"
| "py_format (JBool b) = Inr (if b then ''True'' else ''False'')"
| "py_format JNull = Inr ''None''"
| "py_format (JArr xs) = Inl Unmodelled"
| "py_format (JObj kvs) = Inl Unmodelled"

text \<open>\<^verbatim>\<open>sep.join(xs)\<close> and \<^verbatim>\<open>s.rstrip()\<close> (ASCII white space).\<close>

fun join :: "string \<Rightarrow> string list \<Rightarrow> string" where
  "join sep [] = []"
| "join sep [x] = x"
| "join sep (x # y # ys) = x @ sep @ join sep (y # ys)"

definition is_space :: "char \<Rightarrow> bool" where
  "is_space c = (let n = (of_char c :: nat) in (9 \<le> n \<and> n \<le> 13) \<or> (28 \<le> n \<and> n \<le> 32))"

definition rstrip :: "string \<Rightarrow> string" where
  "rstrip s = rev (dropWhile is_space (rev s))"

text \<open>
  Files. A path holds a regular file with text, a regular file whose bytes are not
  UTF-8, or a directory. \<open>write_log\<close> records every \<^verbatim>\<open>write_text\<close> in order, so that a
  write of unchanged content differs from no write. Parent directories are not
  tracked: \<^verbatim>\<open>mkdir(parents=True, exist_ok=True)\<close> is taken to succeed.
\<close>

datatype fs_entry = Regular string | Undecodable | Directory

record filesystem =
  files :: "string \<Rightarrow> fs_entry option"
  write_log :: "string list"

definition path_exists :: "filesystem \<Rightarrow> string \<Rightarrow> bool" where
  "path_exists fs p = (files fs p \<noteq> None)"

definition read_text :: "filesystem \<Rightarrow> string \<Rightarrow> py_error + string" where
  "read_text fs p =
    (case files fs p of
      None \<Rightarrow> Inl FileNotFoundError
    | Some (Regular s) \<Rightarrow> Inr s
    | Some Undecodable \<Rightarrow> Inl UnicodeDecodeError
    | Some Directory \<Rightarrow> Inl IsADirectoryError)"

definition write_text :: "filesystem \<Rightarrow> string \<Rightarrow> string \<Rightarrow> py_error + filesystem" where
  "write_text fs p content =
    (case files fs p of
      Some Directory \<Rightarrow> Inl IsADirectoryError
    | _ \<Rightarrow> Inr (fs\<lparr>files := (files fs)(p \<mapsto> Regular content),
                  write_log := write_log fs @ [p]\<rparr>))"

text \<open>\<^verbatim>\<open>write_if_changed\<close>, lines 232-238.\<close>

definition write_if_changed :: "filesystem \<Rightarrow> string \<Rightarrow> string \<Rightarrow> py_error + filesystem \<times> bool" where
  "write_if_changed fs p content =
    err_bind (if path_exists fs p then err_bind (read_text fs p) (\<lambda>s. Inr (Some s)) else Inr None)
      (\<lambda>existing.
        if existing = Some content then Inr (fs, False)
        else err_bind (write_text fs p content) (\<lambda>fs'. Inr (fs', True)))"

text \<open>
  \<^verbatim>\<open>load_json_or_default\<close>, lines 204-210. \<open>loads\<close> is \<^verbatim>\<open>json.loads\<close>, a parameter;
  \<^verbatim>\<open>except Exception\<close> catches whatever reading and parsing raise.
\<close>

definition load_json_or_default ::
  "(string \<Rightarrow> py_error + json) \<Rightarrow> filesystem \<Rightarrow> string \<Rightarrow> json \<Rightarrow> py_error + json" where
  "load_json_or_default loads fs p default_value =
    (if \<not> path_exists fs p then Inr default_value
     else (case err_bind (read_text fs p) loads of
             Inl e \<Rightarrow> Inr default_value
           | Inr v \<Rightarrow> Inr v))"

section \<open>Library functions and the command line\<close>

text \<open>
  The standard library functions the program calls are parameters of the model:
  \<^verbatim>\<open>json.loads\<close>, \<^verbatim>\<open>json.dumps(_, indent=2)\<close>, \<^verbatim>\<open>hashlib.sha1(_).hexdigest()\<close>, and of a
  \<^verbatim>\<open>datetime\<close> its \<^verbatim>\<open>isoformat()\<close>, \<^verbatim>\<open>strftime('%Y%m%d')\<close> and \<^verbatim>\<open>date().isoformat()\<close>.
\<close>

record pylib =
  json_loads :: "string \<Rightarrow> py_error + json"
  json_dumps :: "json \<Rightarrow> string"
  sha1_hexdigest :: "string \<Rightarrow> string"
  isoformat :: "datetime \<Rightarrow> string"
  strftime_Ymd :: "datetime \<Rightarrow> string"
  date_isoformat :: "datetime \<Rightarrow> string"

text \<open>
  The parsed arguments. Paths are relative to \<^verbatim>\<open>--repo-root\<close> and in the form
  \<^verbatim>\<open>pathlib\<close> prints them, so that \<^verbatim>\<open>root / p\<close> puts a slash between the two and
  \<^verbatim>\<open>(root / p).relative_to(root)\<close> is \<open>p\<close>.
\<close>

record args =
  repo_root :: string
  board_json :: string
  board_md :: string
  report_dir :: string
  tickets_dir :: string
  summary_json :: string
  max_opportunities :: int
  max_new_tickets :: int

definition path_join :: "string \<Rightarrow> string \<Rightarrow> string" where
  "path_join a b = a @ ''/'' @ b"

section \<open>Tasks and tickets\<close>

definition PLAYBOOK_BY_CATEGORY :: "(string \<times> string \<times> string \<times> string) list" where
  "PLAYBOOK_BY_CATEGORY =
    [(''pricing'',
        ''Pricing and packaging differentiation'',
        ''Evaluate a usage-metered or annual-commit package variant for ReleaseMind PaaS.'',
        ''Run a pricing-page A/B copy test with value metric framing and monitor conversion intent.''),
     (''ai_automation'',
        ''AI-first release operations lane'',
        ''Package AI-assisted release generation and post-publish QA checks as a premium workflow.'',
        ''Build one AI workflow add-on and test adoption with existing active users.''),
     (''developer_workflow'',
        ''Developer workflow integration expansion'',
        ''Prioritize tighter GitHub/CI integration with faster release-note draft loops.'',
        ''Ship one integration enhancement and track week-over-week usage lift.''),
     (''compliance'',
        ''Compliance-ready release communications'',
        ''Productize audit-grade release evidence and governance controls for enterprise buyers.'',
        ''Prototype a compliance export view and collect design-partner feedback.''),
     (''go_to_market'',
        ''Channel and distribution growth'',
        ''Expand marketplace/distribution footprints and partner-aligned onboarding assets.'',
        ''Launch one distribution channel experiment and measure qualified signup rate.''),
     (''general'',
        ''Emerging market signal'',
        ''Capture this signal in backlog and validate impact against current roadmap themes.'',
        ''Interview 3 target users to validate urgency and willingness to pay.'')]"

text \<open>\<^verbatim>\<open>build_action_plan\<close>, lines 223-229.\<close>

definition build_action_plan :: "Opportunity \<Rightarrow> json" where
  "build_action_plan op =
    (case (case map_of PLAYBOOK_BY_CATEGORY (category op) of
             Some template \<Rightarrow> template
           | None \<Rightarrow>
               (''Emerging market signal'',
                ''Capture this signal in backlog and validate impact against current roadmap themes.'',
                ''Interview 3 target users to validate urgency and willingness to pay.'')) of
       (opportunity, plan, experiment) \<Rightarrow>
         JObj [(''opportunity'', JStr opportunity), (''plan'', JStr plan),
               (''experiment'', JStr experiment)])"

text \<open>\<^verbatim>\<open>stable_id\<close>, lines 213-215.\<close>

definition stable_id :: "pylib \<Rightarrow> string \<Rightarrow> string" where
  "stable_id lib lnk = ''mr-'' @ take 10 (sha1_hexdigest lib lnk)"

text \<open>
  \<^verbatim>\<open>slugify\<close>, lines 218-220. \<open>sub_non_slug\<close> is
  \<^verbatim>\<open>re.sub(r"[^a-z0-9]+", "-", _)\<close>: every maximal run of other characters becomes one
  hyphen (\<open>in_run\<close> holds inside such a run).
\<close>

definition is_slug_char :: "char \<Rightarrow> bool" where
  "is_slug_char c =
    (let n = (of_char c :: nat) in (97 \<le> n \<and> n \<le> 122) \<or> (48 \<le> n \<and> n \<le> 57))"

fun sub_non_slug :: "bool \<Rightarrow> string \<Rightarrow> string" where
  "sub_non_slug in_run [] = []"
| "sub_non_slug in_run (c # cs) =
    (if is_slug_char c then c # sub_non_slug False cs
     else if in_run then sub_non_slug True cs
     else CHR ''-'' # sub_non_slug True cs)"

definition strip_hyphens :: "string \<Rightarrow> string" where
  "strip_hyphens s =
    rev (dropWhile (\<lambda>c. c = CHR ''-'') (rev (dropWhile (\<lambda>c. c = CHR ''-'') s)))"

definition slugify :: "string \<Rightarrow> string" where
  "slugify v =
    (let slug = strip_hyphens (sub_non_slug False (lower v)) in
     if take 72 slug = [] then ''market-opportunity'' else take 72 slug)"

text \<open>The dict of lines 409-428.\<close>

definition new_task ::
  "pylib \<Rightarrow> Opportunity \<Rightarrow> json \<Rightarrow> string \<Rightarrow> datetime \<Rightarrow> datetime \<Rightarrow> json" where
  "new_task lib op action_plan rel_ticket_path created updated =
    JObj
     [(''id'', JStr (stable_id lib (link (item op)))),
      (''title'', JStr (title (item op))),
      (''status'', JStr ''paas-backlog''),
      (''priority'', JStr (if score op \<ge> 10 then ''P1'' else ''P2'')),
      (''workstream'', JStr ''paas''),
      (''owner'', JStr ''market-research-agent''),
      (''score'', JInt (score op)),
      (''matched_terms'', JArr (map JStr (matched_terms op))),
      (''action_plan'', action_plan),
      (''source'',
         JObj [(''link'', JStr (link (item op))),
               (''feed'', JStr (source_feed (item op))),
               (''published_at'',
                  (case published_at (item op) of
                     Some d \<Rightarrow> JStr (isoformat lib d)
                   | None \<Rightarrow> JNull))]),
      (''ticket_path'', JStr rel_ticket_path),
      (''created_at'', JStr (isoformat lib created)),
      (''updated_at'', JStr (isoformat lib updated)),
      (''tags'', JArr [JStr ''market-research'', JStr ''opportunity'', JStr ''paas''])]"

text \<open>\<^verbatim>\<open>create_ticket_content\<close>, lines 281-310.\<close>

definition create_ticket_content :: "pylib \<Rightarrow> Opportunity \<Rightarrow> json \<Rightarrow> py_error + string" where
  "create_ticket_content lib op task =
    (let published = (case published_at (item op) of
                        Some d \<Rightarrow> isoformat lib d
                      | None \<Rightarrow> ''unknown'') in
     err_bind (py_getitem task ''action_plan'') (\<lambda>plan.
     err_bind (err_bind (py_getitem task ''workstream'') py_format) (\<lambda>workstream.
     err_bind (err_bind (py_getitem plan ''opportunity'') py_format) (\<lambda>opportunity.
     err_bind (err_bind (py_getitem plan ''plan'') py_format) (\<lambda>plan_text.
     err_bind (err_bind (py_getitem plan ''experiment'') py_format) (\<lambda>experiment.
       Inr (join [CHR 10]
         [''# Market Opportunity: '' @ title (item op),
          [],
          ''- Source: '' @ link (item op),
          ''- Feed: '' @ source_feed (item op),
          ''- Published: '' @ published,
          ''- Score: '' @ str_of_int (score op),
          ''- Category: `'' @ category op @ ''`'',
          ''- Workstream: `'' @ workstream @ ''`'',
          [],
          ''## Why this matters'',
          opportunity @ ''.'',
          [],
          ''## Action plan'',
          plan_text,
          [],
          ''## 7-day experiment'',
          experiment,
          [],
          ''## Task checklist'',
          ''- [ ] Validate urgency with at least 3 target users'',
          ''- [ ] Define success metric and baseline'',
          ''- [ ] Prototype scope and estimate implementation effort'',
          ''- [ ] Decide go/no-go for PaaS backlog'',
          []])))))))"

section \<open>The merge\<close>

text \<open>
  Lines 383-385: \<^verbatim>\<open>existing_by_source\<close> maps a link to the task object that carries
  it; a later task replaces an earlier one with the same link. The task object is
  given by its position in \<^verbatim>\<open>existing_tasks\<close>, which no later step moves. Only
  \<^verbatim>\<open>str\<close> keys are kept: no other key equals the link of an opportunity. A list or
  a dict as key is not hashable.
\<close>

fun index_tasks ::
  "json list \<Rightarrow> nat \<Rightarrow> (string \<Rightarrow> nat option) \<Rightarrow> py_error + (string \<Rightarrow> nat option)" where
  "index_tasks [] i m = Inr m"
| "index_tasks (task # rest) i m =
    err_bind (py_get task ''source'' JNull) (\<lambda>src.
      if truthy src then
        err_bind (py_get src ''link'' (JStr [])) (\<lambda>k.
          case k of
            JStr l \<Rightarrow> index_tasks rest (Suc i) (m(l \<mapsto> i))
          | JArr xs \<Rightarrow> Inl TypeError
          | JObj kvs \<Rightarrow> Inl TypeError
          | _ \<Rightarrow> index_tasks rest (Suc i) m)
      else index_tasks rest (Suc i) m)"

text \<open>
  The state of the loop of lines 390-435: the locals \<^verbatim>\<open>existing_tasks\<close>,
  \<^verbatim>\<open>existing_by_source\<close>, \<^verbatim>\<open>created_tasks\<close> and \<^verbatim>\<open>created_ticket_paths\<close>, the files
  and the number of clock readings made so far.
\<close>

record merge_state =
  existing_tasks :: "json list"
  existing_by_source :: "string \<Rightarrow> nat option"
  created_tasks :: nat
  created_ticket_paths :: "string list"
  fs_now :: filesystem
  tick_now :: nat

text \<open>Lines 395-398.\<close>

definition refresh_task :: "pylib \<Rightarrow> datetime \<Rightarrow> Opportunity \<Rightarrow> json \<Rightarrow> py_error + json" where
  "refresh_task lib now op task =
    err_bind (py_setitem task ''updated_at'' (JStr (isoformat lib now))) (\<lambda>t1.
    err_bind (py_setitem t1 ''score'' (JInt (score op))) (\<lambda>t2.
    err_bind (py_setitem t2 ''matched_terms'' (JArr (map JStr (matched_terms op)))) (\<lambda>t3.
    py_setitem t3 ''action_plan'' (build_action_plan op))))"

text \<open>
  One iteration, lines 391-435. \<open>tasks_appendable\<close> tells whether \<^verbatim>\<open>existing_tasks\<close>
  is a list (only a list has \<^verbatim>\<open>append\<close>). A reference of \<^verbatim>\<open>existing_by_source\<close>
  always points into the list; the test \<open>i < length\<close> only keeps the model total.
\<close>

definition merge_step ::
  "pylib \<Rightarrow> (nat \<Rightarrow> datetime) \<Rightarrow> args \<Rightarrow> bool \<Rightarrow> merge_state \<Rightarrow> Opportunity \<Rightarrow> py_error + merge_state" where
  "merge_step lib clock a tasks_appendable st op =
    (let key = link (item op); action_plan = build_action_plan op in
     case existing_by_source st key of
       Some i \<Rightarrow>
         if i < length (existing_tasks st) then
           err_bind (refresh_task lib (clock (tick_now st)) op (existing_tasks st ! i)) (\<lambda>task.
             Inr (st\<lparr>existing_tasks := (existing_tasks st)[i := task],
                     tick_now := Suc (tick_now st)\<rparr>))
         else Inl Unmodelled
     | None \<Rightarrow>
         if created_tasks st \<ge> nat (max 0 (max_new_tickets a)) then Inr st
         else
           (let ticket_name = strftime_Ymd lib (clock (tick_now st)) @ ''-''
                                @ slugify (title (item op)) @ ''.md'';
                rel_ticket_path = path_join (tickets_dir a) ticket_name;
                ticket_path = path_join (repo_root a) rel_ticket_path;
                task = new_task lib op action_plan rel_ticket_path
                         (clock (tick_now st + 1)) (clock (tick_now st + 2))
            in
            if \<not> tasks_appendable then Inl AttributeError
            else
              err_bind (create_ticket_content lib op task) (\<lambda>content.
              err_bind (write_if_changed (fs_now st) ticket_path content) (\<lambda>(fs', changed).
                Inr (st\<lparr>existing_tasks := existing_tasks st @ [task],
                        existing_by_source :=
                          (existing_by_source st)(key \<mapsto> length (existing_tasks st)),
                        created_tasks := Suc (created_tasks st),
                        created_ticket_paths := created_ticket_paths st @ [rel_ticket_path],
                        fs_now := fs',
                        tick_now := tick_now st + 3\<rparr>)))))"

fun merge_loop ::
  "pylib \<Rightarrow> (nat \<Rightarrow> datetime) \<Rightarrow> args \<Rightarrow> bool \<Rightarrow> merge_state \<Rightarrow> Opportunity list \<Rightarrow> py_error + merge_state" where
  "merge_loop lib clock a tasks_appendable st [] = Inr st"
| "merge_loop lib clock a tasks_appendable st (op # ops) =
    err_bind (merge_step lib clock a tasks_appendable st op)
      (\<lambda>st'. merge_loop lib clock a tasks_appendable st' ops)"

text \<open>
  Lines 383-435 together: the index of the loaded tasks, then the loop over the top
  opportunities, from no task created, no ticket path and the clock at \<open>tick\<close>.
\<close>

definition merge_tasks ::
  "pylib \<Rightarrow> (nat \<Rightarrow> datetime) \<Rightarrow> args \<Rightarrow> bool \<Rightarrow> json list \<Rightarrow> filesystem \<Rightarrow> nat \<Rightarrow>
   Opportunity list \<Rightarrow> py_error + merge_state" where
  "merge_tasks lib clock a tasks_appendable tasks fs tick tops =
    err_bind (index_tasks tasks 0 Map.empty) (\<lambda>m.
      merge_loop lib clock a tasks_appendable
        \<lparr>existing_tasks = tasks, existing_by_source = m, created_tasks = 0,
         created_ticket_paths = [], fs_now = fs, tick_now = tick\<rparr> tops)"

section \<open>The board: history, rendering, report\<close>

text \<open>\<^verbatim>\<open>x.append(v)\<close> (only a list has \<^verbatim>\<open>append\<close>) and \<^verbatim>\<open>xs[-n:]\<close> for \<open>n > 0\<close>.\<close>

fun py_append :: "json \<Rightarrow> json \<Rightarrow> py_error + json" where
  "py_append (JArr xs) v = Inr (JArr (xs @ [v]))"
| "py_append JNull v = Inl AttributeError"
| "py_append (JBool b) v = Inl AttributeError"
| "py_append (JInt i) v = Inl AttributeError"
| "py_append (JStr s) v = Inl AttributeError"
| "py_append (JObj kvs) v = Inl AttributeError"

definition last_n :: "nat \<Rightarrow> 'a list \<Rightarrow> 'a list" where
  "last_n n xs = drop (length xs - n) xs"

text \<open>
  Lines 437-447. \<open>tasks_value\<close> is \<^verbatim>\<open>existing_tasks\<close>. \<^verbatim>\<open>setdefault\<close> puts an absent
  \<^verbatim>\<open>history\<close> key last, where the assignment of line 447 then finds it, so one
  assignment of the truncated list models both. The clock is read at line 438 and
  at line 441.
\<close>

definition finish_board ::
  "pylib \<Rightarrow> (nat \<Rightarrow> datetime) \<Rightarrow> nat \<Rightarrow> json \<Rightarrow> json \<Rightarrow> nat \<Rightarrow> nat \<Rightarrow> nat \<Rightarrow> py_error + json" where
  "finish_board lib clock tick board tasks_value signals_scanned top_opportunities new_tasks =
    err_bind (py_setitem board ''tasks'' tasks_value) (\<lambda>b1.
    err_bind (py_setitem b1 ''updated_at'' (JStr (isoformat lib (clock tick)))) (\<lambda>b2.
    err_bind (py_get b2 ''history'' (JArr [])) (\<lambda>history.
    err_bind (py_append history
               (JObj [(''ran_at'', JStr (isoformat lib (clock (Suc tick)))),
                      (''signals_scanned'', JInt (int signals_scanned)),
                      (''top_opportunities'', JInt (int top_opportunities)),
                      (''new_tasks'', JInt (int new_tasks))])) (\<lambda>history'.
      case history' of
        JArr entries \<Rightarrow> py_setitem b2 ''history'' (JArr (last_n 50 entries))
      | _ \<Rightarrow> Inl TypeError))))"

text \<open>Running a function that may raise over a list, left to right.\<close>

fun err_map :: "('a \<Rightarrow> 'e + 'b) \<Rightarrow> 'a list \<Rightarrow> 'e + 'b list" where
  "err_map f [] = Inr []"
| "err_map f (x # xs) = err_bind (f x) (\<lambda>y. err_bind (err_map f xs) (\<lambda>ys. Inr (y # ys)))"

text \<open>Line 255: \<^verbatim>\<open>[t for t in tasks if t.get("status") == cid]\<close>.\<close>

fun filter_status :: "json list \<Rightarrow> json \<Rightarrow> py_error + json list" where
  "filter_status [] cid = Inr []"
| "filter_status (t # ts) cid =
    err_bind (py_get t ''status'' JNull) (\<lambda>status.
    err_bind (py_eq status cid) (\<lambda>same.
    err_bind (filter_status ts cid) (\<lambda>rest. Inr (if same then t # rest else rest))))"

text \<open>
  Line 261: the stable sort on (priority, created_at). String keys are compared
  as Python compares strings; a list of fewer than two tasks needs no
  comparison; other keys are outside the model.
\<close>

definition task_sort_key :: "json \<Rightarrow> py_error + json \<times> json" where
  "task_sort_key t =
    err_bind (py_get t ''priority'' (JStr ''P3'')) (\<lambda>p.
    err_bind (py_get t ''created_at'' (JStr [])) (\<lambda>c. Inr (p, c)))"

fun string_key :: "json \<times> json \<Rightarrow> (string \<times> string) option" where
  "string_key (JStr p, JStr c) = Some (p, c)"
| "string_key other = None"

definition sort_col_tasks :: "json list \<Rightarrow> py_error + json list" where
  "sort_col_tasks ts =
    err_bind (err_map task_sort_key ts) (\<lambda>keys.
      if length ts < 2 then Inr ts
      else (case those (map string_key keys) of
              Some string_keys \<Rightarrow> Inr (map snd (sort_key fst (zip string_keys ts)))
            | None \<Rightarrow> Inl Unmodelled))"

text \<open>Lines 263-275: the lines of one task.\<close>

definition render_task :: "json \<Rightarrow> py_error + string list" where
  "render_task task =
    err_bind (py_get task ''title'' (JStr ''Untitled'')) (\<lambda>title_v.
    err_bind (py_get task ''priority'' (JStr ''P3'')) (\<lambda>prio_v.
    err_bind (py_get task ''ticket_path'' JNull) (\<lambda>ticket.
    err_bind (py_get task ''owner'' (JStr ''market-agent'')) (\<lambda>owner_v.
    err_bind (py_get task ''action_plan'' (JObj [])) (\<lambda>plan.
    err_bind (py_get plan ''plan'' (JStr [])) (\<lambda>plan_text.
    err_bind (py_format prio_v) (\<lambda>prio.
    err_bind (py_format title_v) (\<lambda>title_s.
    err_bind (py_format owner_v) (\<lambda>owner.
    err_bind (err_bind (py_get task ''workstream'' (JStr ''paas'')) py_format) (\<lambda>workstream.
    err_bind (if truthy ticket then py_format ticket else Inr []) (\<lambda>ticket_s.
    err_bind (if truthy plan_text then py_format plan_text else Inr []) (\<lambda>plan_s.
      Inr ([''- **['' @ prio @ ''] '' @ title_s @ ''**'',
            ''  - Owner: `'' @ owner @ ''`'',
            ''  - Workstream: `'' @ workstream @ ''`'']
           @ (if truthy ticket then [''  - Ticket: `'' @ ticket_s @ ''`''] else [])
           @ (if truthy plan_text then [''  - Plan: '' @ plan_s] else []))))))))))))))"

text \<open>Lines 251-276: the loop over the columns; \<open>tasks\<close> is iterated for every column.\<close>

fun render_columns :: "json list \<Rightarrow> json \<Rightarrow> py_error + string list" where
  "render_columns [] tasks = Inr []"
| "render_columns (col # cols) tasks =
    err_bind (py_getitem col ''id'') (\<lambda>cid.
    err_bind (py_getitem col ''name'') (\<lambda>cname_v.
    err_bind (py_format cname_v) (\<lambda>cname.
    err_bind (py_iter tasks) (\<lambda>ts.
    err_bind (filter_status ts cid) (\<lambda>col_tasks.
    err_bind (if col_tasks = [] then Inr [''- _(none)_'', []]
              else err_bind (sort_col_tasks col_tasks) (\<lambda>sorted.
                   err_bind (err_map render_task sorted) (\<lambda>ls. Inr (concat ls @ [[]]))))
      (\<lambda>body.
    err_bind (render_columns cols tasks) (\<lambda>rest.
      Inr ([''## '' @ cname] @ body @ rest))))))))"

text \<open>\<^verbatim>\<open>render_board_markdown\<close>, lines 241-278.\<close>

definition render_board_markdown :: "json \<Rightarrow> py_error + string" where
  "render_board_markdown board =
    err_bind (py_getitem board ''updated_at'') (\<lambda>updated_v.
    err_bind (py_format updated_v) (\<lambda>updated.
    err_bind (py_get board ''columns'' (JArr [])) (\<lambda>columns_v.
    err_bind (py_get board ''tasks'' (JArr [])) (\<lambda>tasks.
    err_bind (py_iter columns_v) (\<lambda>columns.
    err_bind (render_columns columns tasks) (\<lambda>col_lines.
      Inr (rstrip (join [CHR 10]
             ([''# Shared Market Taskboard'', [], ''Updated: '' @ updated, []] @ col_lines))
           @ [CHR 10])))))))"

text \<open>Lines 470-481: the report lines of one top opportunity.\<close>

definition report_entry :: "Opportunity \<Rightarrow> py_error + string list" where
  "report_entry op =
    (let plan = build_action_plan op in
     err_bind (err_bind (py_getitem plan ''plan'') py_format) (\<lambda>plan_text.
     err_bind (err_bind (py_getitem plan ''experiment'') py_format) (\<lambda>experiment.
       Inr [''### '' @ title (item op),
            ''- Link: '' @ link (item op),
            ''- Score: '' @ str_of_int (score op),
            ''- Category: `'' @ category op @ ''`'',
            ''- Matched terms: ''
               @ (if matched_terms op \<noteq> [] then join '', '' (matched_terms op) else ''none''),
            ''- Action: '' @ plan_text,
            ''- 7-day experiment: '' @ experiment,
            []])))"

text \<open>Lines 455-492: the text of the report; \<open>today\<close> is the date of line 456.\<close>

definition report_content ::
  "string \<Rightarrow> nat \<Rightarrow> nat \<Rightarrow> Opportunity list \<Rightarrow> nat \<Rightarrow> string list \<Rightarrow> py_error + string" where
  "report_content today signals_scanned scored tops new_tasks feed_errors =
    err_bind (err_map report_entry tops) (\<lambda>entries.
      Inr (rstrip (join [CHR 10]
             ([''# Market Opportunities Scan ('' @ today @ '')'',
               [],
               ''- Signals scanned: '' @ str_of_int (int signals_scanned),
               ''- Scored opportunities: '' @ str_of_int (int scored),
               ''- Top opportunities considered: '' @ str_of_int (int (length tops)),
               ''- New tasks created: '' @ str_of_int (int new_tasks),
               [],
               ''## Top opportunities'']
              @ (if tops = [] then [''- No high-signal opportunities found in this run.'']
                 else concat entries)
              @ (if feed_errors \<noteq> []
                 then [''## Feed errors''] @ map (\<lambda>e. ''- '' @ e) feed_errors @ [[]]
                 else [])))
           @ [CHR 10]))"

section \<open>The run\<close>

text \<open>Lines 367-379.\<close>

definition default_board :: "string \<Rightarrow> json" where
  "default_board updated_at =
    JObj [(''version'', JInt 1),
          (''updated_at'', JStr updated_at),
          (''columns'',
             JArr [JObj [(''id'', JStr ''market-intel''), (''name'', JStr ''Market Intel'')],
                   JObj [(''id'', JStr ''paas-backlog''), (''name'', JStr ''PaaS Backlog'')],
                   JObj [(''id'', JStr ''paas-build''), (''name'', JStr ''PaaS Build'')],
                   JObj [(''id'', JStr ''validate''), (''name'', JStr ''Validate'')],
                   JObj [(''id'', JStr ''done''), (''name'', JStr ''Done'')]]),
          (''tasks'', JArr []),
          (''history'', JArr [])]"

fun is_list :: "json \<Rightarrow> bool" where
  "is_list (JArr xs) = True"
| "is_list other = False"

text \<open>
  Lines 345-365: from the fetched items to the top opportunities. The result is
  \<^verbatim>\<open>deduped\<close>, the sorted \<^verbatim>\<open>opportunities\<close>, \<^verbatim>\<open>top\<close> and the number of clock readings.
\<close>

definition select_top ::
  "(nat \<Rightarrow> datetime) \<Rightarrow> args \<Rightarrow> FeedItem list \<Rightarrow>
   FeedItem list \<times> Opportunity list \<times> Opportunity list \<times> nat" where
  "select_top clock a fetched_items =
    (let deduped = dedupe {} fetched_items in
     case score_all clock 0 deduped of
       (scored, tick) \<Rightarrow>
         (let opportunities = rank_opportunities scored in
          (deduped, opportunities, take_top (max_opportunities a) opportunities, tick)))"

text \<open>
  Lines 367-447: the board is loaded, merged with the top opportunities and
  completed. The result is the board as it is serialised and the final state of
  the merge.
\<close>

definition reconcile ::
  "pylib \<Rightarrow> (nat \<Rightarrow> datetime) \<Rightarrow> args \<Rightarrow> filesystem \<Rightarrow> nat \<Rightarrow> nat \<Rightarrow> Opportunity list \<Rightarrow>
   py_error + json \<times> merge_state" where
  "reconcile lib clock a fs tick signals_scanned tops =
    err_bind (load_json_or_default (json_loads lib) fs
               (path_join (repo_root a) (board_json a))
               (default_board (isoformat lib (clock tick)))) (\<lambda>board.
    err_bind (py_get board ''tasks'' (JArr [])) (\<lambda>tasks_value.
    err_bind (py_iter tasks_value) (\<lambda>tasks.
    err_bind (merge_tasks lib clock a (is_list tasks_value) tasks fs (Suc tick) tops) (\<lambda>st.
    err_bind (finish_board lib clock (tick_now st) board
               (if is_list tasks_value then JArr (existing_tasks st) else tasks_value)
               signals_scanned (length tops) (created_tasks st)) (\<lambda>board'.
      Inr (board', st))))))"

text \<open>Lines 494-506: the summary dict.\<close>

definition summary_dict ::
  "nat \<Rightarrow> nat \<Rightarrow> nat \<Rightarrow> nat \<Rightarrow> bool \<Rightarrow> bool \<Rightarrow> bool \<Rightarrow> string \<Rightarrow> string list \<Rightarrow> string list \<Rightarrow> json" where
  "summary_dict signals_scanned scored top_opportunities new_tasks
       board_json_changed board_md_changed report_changed report_path ticket_paths feed_errors =
    JObj [(''status'', JStr ''ok''),
          (''signals_scanned'', JInt (int signals_scanned)),
          (''scored_opportunities'', JInt (int scored)),
          (''top_opportunities'', JInt (int top_opportunities)),
          (''new_tasks'', JInt (int new_tasks)),
          (''board_json_changed'', JBool board_json_changed),
          (''board_md_changed'', JBool board_md_changed),
          (''report_changed'', JBool report_changed),
          (''report_path'', JStr report_path),
          (''created_ticket_paths'', JArr (map JStr ticket_paths)),
          (''feed_errors'', JArr (map JStr feed_errors))]"

text \<open>
  Lines 449-510: the board, its Markdown and the report are written if changed,
  the summary is written always. \<open>tick\<close> counts the clock readings before line 456.
\<close>

definition persist ::
  "pylib \<Rightarrow> (nat \<Rightarrow> datetime) \<Rightarrow> args \<Rightarrow> nat \<Rightarrow> json \<Rightarrow> merge_state \<Rightarrow>
   nat \<Rightarrow> nat \<Rightarrow> Opportunity list \<Rightarrow> string list \<Rightarrow> py_error + filesystem \<times> json" where
  "persist lib clock a tick board st signals_scanned scored tops feed_errors =
    err_bind (write_if_changed (fs_now st) (path_join (repo_root a) (board_json a))
               (json_dumps lib board @ [CHR 10])) (\<lambda>(fs1, board_json_changed).
    err_bind (render_board_markdown board) (\<lambda>board_md_content.
    err_bind (write_if_changed fs1 (path_join (repo_root a) (board_md a)) board_md_content)
      (\<lambda>(fs2, board_md_changed).
    err_bind (report_content (date_isoformat lib (clock tick)) signals_scanned scored tops
               (created_tasks st) feed_errors) (\<lambda>report.
    (let report_path = path_join (report_dir a)
                         (date_isoformat lib (clock (Suc tick)) @ ''-market-opportunities.md'') in
     err_bind (write_if_changed fs2 (path_join (repo_root a) report_path) report)
       (\<lambda>(fs3, report_changed).
     (let summary = summary_dict signals_scanned scored (length tops) (created_tasks st)
                      board_json_changed board_md_changed report_changed report_path
                      (created_ticket_paths st) feed_errors in
      err_bind (write_text fs3 (path_join (repo_root a) (summary_json a))
                 (json_dumps lib summary @ [CHR 10])) (\<lambda>fs4.
        Inr (fs4, summary)))))))))"

text \<open>
  \<^verbatim>\<open>main\<close> from line 345 on. The parsed arguments and the outcome of the fetch loop
  of lines 335-343 (the items of all feeds in order, and the error lines) are
  inputs. An uncaught exception ends the run; the model then returns the
  exception alone. Otherwise it returns the files and the summary.
\<close>

definition main ::
  "pylib \<Rightarrow> (nat \<Rightarrow> datetime) \<Rightarrow> args \<Rightarrow> FeedItem list \<Rightarrow> string list \<Rightarrow> filesystem \<Rightarrow>
   py_error + filesystem \<times> json" where
  "main lib clock a fetched_items feed_errors fs =
    (case select_top clock a fetched_items of
       (deduped, opportunities, tops, tick) \<Rightarrow>
         err_bind (reconcile lib clock a fs tick (length deduped) tops) (\<lambda>(board, st).
           persist lib clock a (tick_now st + 2) board st
             (length deduped) (length opportunities) tops feed_errors))"

section \<open>A concrete library for the scenarios\<close>

text \<open>
  \<^verbatim>\<open>json.dumps(_, indent=2)\<close> on the values of the model, for ASCII strings: two
  spaces per level, one element or member per line, \<^verbatim>\<open>[]\<close> and \<^verbatim>\<open>{}\<close> for the empty
  containers, the escapes of \<^verbatim>\<open>ensure_ascii\<close>.
\<close>

definition hex_digit :: "nat \<Rightarrow> char" where
  "hex_digit n = ''0123456789abcdef'' ! n"

definition json_escape_char :: "char \<Rightarrow> string" where
  "json_escape_char c =
    (let n = (of_char c :: nat) in
     if n = 34 then [CHR 0x5C, CHR 0x22]
     else if n = 92 then [CHR 0x5C, CHR 0x5C]
     else if n = 10 then [CHR 0x5C, CHR ''n'']
     else if n = 13 then [CHR 0x5C, CHR ''r'']
     else if n = 9 then [CHR 0x5C, CHR ''t'']
     else if n = 8 then [CHR 0x5C, CHR ''b'']
     else if n = 12 then [CHR 0x5C, CHR ''f'']
     else if 32 \<le> n \<and> n \<le> 126 then [c]
     else [CHR 0x5C, CHR ''u'', CHR ''0'', CHR ''0'', hex_digit (n div 16), hex_digit (n mod 16)])"

definition json_quote :: "string \<Rightarrow> string" where
  "json_quote s = CHR 0x22 # concat (map json_escape_char s) @ [CHR 0x22]"

definition json_newline :: "nat \<Rightarrow> string" where
  "json_newline level = CHR 10 # replicate (2 * level) CHR '' ''"

fun json_dumps_at :: "nat \<Rightarrow> json \<Rightarrow> string" where
  "json_dumps_at level JNull = ''null''"
| "json_dumps_at level (JBool b) = (if b then ''true'' else ''false'')"
| "json_dumps_at level (JInt i) = str_of_int i"
| "json_dumps_at level (JStr s) = json_quote s"
| "json_dumps_at level (JArr xs) =
    (if xs = [] then ''[]''
     else ''['' @ json_newline (Suc level)
          @ join ('','' @ json_newline (Suc level)) (map (json_dumps_at (Suc level)) xs)
          @ json_newline level @ '']'')"
| "json_dumps_at level (JObj kvs) =
    (if kvs = [] then ''{}''
     else ''{'' @ json_newline (Suc level)
          @ join ('','' @ json_newline (Suc level))
              (map (\<lambda>(k, v). json_quote k @ '': '' @ json_dumps_at (Suc level) v) kvs)
          @ json_newline level @ ''}'')"

definition json_dumps_indent2 :: "json \<Rightarrow> string" where
  "json_dumps_indent2 v = json_dumps_at 0 v"

text \<open>A library function given by its values at the arguments a scenario passes it.\<close>

definition table_fn :: "('a \<times> 'b) list \<Rightarrow> 'b \<Rightarrow> 'a \<Rightarrow> 'b" where
  "table_fn tbl d x = (case map_of tbl x of Some y \<Rightarrow> y | None \<Rightarrow> d)"

text \<open>
  The scenario: an empty repository, a budget of one new ticket, two undated feed
  items with different links, and a clock that stands at 2026-01-05T09:00:00Z.
  The library is given at the arguments the scenario passes: the SHA-1 digests of
  the two links and the three renderings of the clock reading; \<^verbatim>\<open>json.dumps\<close> is
  the function above; no file is parsed yet.
\<close>

definition demo_now :: datetime where
  "demo_now = 1767603600000000"

definition demo_args :: args where
  "demo_args =
    \<lparr>repo_root = ''/repo'',
     board_json = ''board.json'',
     board_md = ''BOARD.md'',
     report_dir = ''reports'',
     tickets_dir = ''tickets'',
     summary_json = ''summary.json'',
     max_opportunities = 6,
     max_new_tickets = 1\<rparr>"

definition demo_items :: "FeedItem list" where
  "demo_items =
    [\<lparr>title = ''Seat pricing'', link = ''https://a.example/p1'',
      published_at = None, source_feed = ''https://a.example/feed''\<rparr>,
     \<lparr>title = ''LLM agents'', link = ''https://b.example/p2'',
      published_at = None, source_feed = ''https://b.example/feed''\<rparr>]"

definition demo_op1 :: Opportunity where
  "demo_op1 =
    \<lparr>item = \<lparr>title = ''Seat pricing'', link = ''https://a.example/p1'',
              published_at = None, source_feed = ''https://a.example/feed''\<rparr>,
     score = 8, category = ''pricing'', matched_terms = [''pricing'', ''seat'']\<rparr>"

definition demo_op2 :: Opportunity where
  "demo_op2 =
    \<lparr>item = \<lparr>title = ''LLM agents'', link = ''https://b.example/p2'',
              published_at = None, source_feed = ''https://b.example/feed''\<rparr>,
     score = 8, category = ''ai_automation'', matched_terms = [''agent'', ''llm'']\<rparr>"

definition demo_fs :: filesystem where
  "demo_fs = \<lparr>files = (\<lambda>p. None), write_log = []\<rparr>"

definition demo_lib :: pylib where
  "demo_lib =
    \<lparr>json_loads = (\<lambda>s. Inl JSONDecodeError),
     json_dumps = json_dumps_indent2,
     sha1_hexdigest =
       table_fn [(''https://a.example/p1'', ''90645fe9e567f59059f01607a145024638e1d9c1''),
                 (''https://b.example/p2'', ''1f12bd32e731b1657339c6513fd0abd7d7fd0b8f'')]
         [],
     isoformat = table_fn [(demo_now, ''2026-01-05T09:00:00+00:00'')] [],
     strftime_Ymd = table_fn [(demo_now, ''20260105'')] [],
     date_isoformat = table_fn [(demo_now, ''2026-01-05'')] []\<rparr>"


section \<open>Notions of the specification\<close>

text \<open>
  The keyword contribution of one table entry, in the words of the specification:
  the weight, once per term of the entry that occurs in the text.
\<close>

definition entry_points :: "string \<Rightarrow> string \<times> string list \<times> int \<Rightarrow> int" where
  "entry_points text e =
    (case e of (cat, terms, weight) \<Rightarrow> weight * int (length (filter (\<lambda>t. str_in t text) terms)))"

definition keyword_points :: "FeedItem \<Rightarrow> int" where
  "keyword_points it = sum_list (map (entry_points (haystack it)) KEYWORD_WEIGHTS)"

text \<open>The recency bonus of the specification, ages in microseconds.\<close>

definition recency_points :: "datetime \<Rightarrow> datetime option \<Rightarrow> int" where
  "recency_points now p =
    (case p of
      None \<Rightarrow> 0
    | Some d \<Rightarrow>
        if now - d \<le> 7 * 86400000000 then 3
        else if now - d \<le> 30 * 86400000000 then 1
        else 0)"

text \<open>No term of the table other than \<open>t0\<close> occurs in the haystack of the item.\<close>

definition only_term_matched :: "FeedItem \<Rightarrow> string \<Rightarrow> bool" where
  "only_term_matched it t0 =
     list_all (\<lambda>e. list_all (\<lambda>t. t = t0 \<or> \<not> str_in t (haystack it)) (fst (snd e)))
       KEYWORD_WEIGHTS"


text \<open>
  The link a task is indexed under: the \<^verbatim>\<open>link\<close> of its \<^verbatim>\<open>source\<close>, for a task with
  a non-empty \<^verbatim>\<open>source\<close> (the empty string when the source has no link).
\<close>

definition task_link :: "json \<Rightarrow> string option" where
  "task_link task =
    (case py_get task ''source'' JNull of
       Inr src \<Rightarrow>
         if truthy src then
           (case py_get src ''link'' (JStr []) of Inr (JStr l) \<Rightarrow> Some l | _ \<Rightarrow> None)
         else None
     | Inl e \<Rightarrow> None)"

text \<open>The value of a field of a task, \<^verbatim>\<open>None\<close> for an absent field.\<close>

definition field :: "json \<Rightarrow> string \<Rightarrow> json option" where
  "field task k = (case task of JObj kvs \<Rightarrow> map_of kvs k | _ \<Rightarrow> None)"

definition refreshed_fields :: "string set" where
  "refreshed_fields = {''score'', ''matched_terms'', ''action_plan'', ''updated_at''}"

text \<open>
  \<open>t'\<close> is the task \<open>t\<close>, possibly refreshed: the same object, or a dict that differs
  from \<open>t\<close> in refreshed fields only.
\<close>

definition same_task :: "json \<Rightarrow> json \<Rightarrow> bool" where
  "same_task t t' =
    (t' = t \<or>
     (\<exists>kvs kvs'. t = JObj kvs \<and> t' = JObj kvs' \<and>
        (\<forall>k. k \<notin> refreshed_fields \<longrightarrow> map_of kvs' k = map_of kvs k)))"


text \<open>
  Every reference of the index points to a task of the list that carries the
  link it is filed under.
\<close>

definition index_sound :: "merge_state \<Rightarrow> bool" where
  "index_sound st =
    (\<forall>l i. existing_by_source st l = Some i \<longrightarrow>
       i < length (existing_tasks st) \<and> task_link (existing_tasks st ! i) = Some l)"


text \<open>The files after \<^verbatim>\<open>write_if_changed\<close>: as before when the content is there already.\<close>

definition put_file :: "filesystem \<Rightarrow> string \<Rightarrow> string \<Rightarrow> filesystem" where
  "put_file fs p content =
    (if files fs p = Some (Regular content) then fs
     else fs\<lparr>files := (files fs)(p \<mapsto> Regular content), write_log := write_log fs @ [p]\<rparr>)"

text \<open>The four paths a run writes besides the tickets.\<close>

definition board_json_path :: "args \<Rightarrow> string" where
  "board_json_path a = path_join (repo_root a) (board_json a)"

definition board_md_path :: "args \<Rightarrow> string" where
  "board_md_path a = path_join (repo_root a) (board_md a)"

definition report_file_path :: "pylib \<Rightarrow> args \<Rightarrow> datetime \<Rightarrow> string" where
  "report_file_path lib a now =
    path_join (repo_root a)
      (path_join (report_dir a) (date_isoformat lib now @ ''-market-opportunities.md''))"

definition summary_json_path :: "args \<Rightarrow> string" where
  "summary_json_path a = path_join (repo_root a) (summary_json a)"

section \<open>Properties of the scorer\<close>

lemma starts_with_iff: "starts_with t s \<longleftrightarrow> (\<exists>post. s = t @ post)"
  by (induction t s rule: starts_with.induct) auto

text \<open>\<^const>\<open>str_in\<close> is the substring test.\<close>

lemma str_in_iff: "str_in t s \<longleftrightarrow> (\<exists>pre post. s = pre @ t @ post)"
proof (induction s)
  case Nil
  then show ?case by simp
next
  case (Cons d ds)
  show ?case
  proof
    assume "str_in t (d # ds)"
    then consider "starts_with t (d # ds)" | "str_in t ds" by auto
    then show "\<exists>pre post. d # ds = pre @ t @ post"
    proof cases
      case 1
      then obtain post where "d # ds = t @ post" by (auto simp: starts_with_iff)
      then have "d # ds = [] @ t @ post" by simp
      then show ?thesis by blast
    next
      case 2
      then obtain pre post where "ds = pre @ t @ post" using Cons.IH by auto
      then have "d # ds = (d # pre) @ t @ post" by simp
      then show ?thesis by blast
    qed
  next
    assume "\<exists>pre post. d # ds = pre @ t @ post"
    then obtain pre post where e: "d # ds = pre @ t @ post" by auto
    show "str_in t (d # ds)"
    proof (cases pre)
      case Nil
      then have "starts_with t (d # ds)" using e by (auto simp: starts_with_iff)
      then show ?thesis by simp
    next
      case (Cons p ps)
      then have "ds = ps @ t @ post" using e by simp
      then have "str_in t ds" using Cons.IH by blast
      then show ?thesis by simp
    qed
  qed
qed

lemma lower_append: "lower (a @ b) = lower a @ lower b"
  by (simp add: lower_def)

lemma str_in_lower: "str_in t s \<Longrightarrow> str_in (lower t) (lower s)"
  unfolding str_in_iff by (metis lower_append)

lemma str_in_append_right: "str_in t s \<Longrightarrow> str_in t (p @ s)"
  unfolding str_in_iff by (metis append.assoc)

lemma scan_terms_eq:
  "scan_terms text w ts (cs, ms) =
     (cs + w * int (length (filter (\<lambda>t. str_in t text) ts)), ms @ filter (\<lambda>t. str_in t text) ts)"
  by (induction ts arbitrary: cs ms) (auto simp: algebra_simps)

lemma dict_set_fresh: "k \<notin> fst ` set d \<Longrightarrow> dict_set d k v = d @ [(k, v)]"
  by (induction d) auto

lemma scan_categories_eq:
  assumes "distinct (map fst tbl)" and "fst ` set tbl \<inter> fst ` set cs0 = {}"
  shows "scan_categories text tbl (t0, cs0, ms0) =
     (t0 + sum_list (map (\<lambda>e. max 0 (entry_points text e)) tbl),
      cs0 @ map (\<lambda>e. (fst e, entry_points text e)) (filter (\<lambda>e. 0 < entry_points text e) tbl),
      ms0 @ concat (map (\<lambda>e. filter (\<lambda>t. str_in t text) (fst (snd e))) tbl))"
  using assms
proof (induction tbl arbitrary: t0 cs0 ms0)
  case Nil
  then show ?case by simp
next
  case (Cons e tbl)
  obtain c ts w where e: "e = (c, ts, w)" by (cases e)
  have fresh: "c \<notin> fst ` set cs0" using Cons.prems e by auto
  show ?case
  proof (cases "0 < entry_points text e")
    case True
    have "fst ` set tbl \<inter> fst ` set (cs0 @ [(c, entry_points text e)]) = {}"
      using Cons.prems e by auto
    with Cons True e fresh show ?thesis
      by (simp add: scan_terms_eq entry_points_def dict_set_fresh)
  next
    case False
    have "fst ` set tbl \<inter> fst ` set cs0 = {}" using Cons.prems by auto
    with Cons False e show ?thesis
      by (simp add: scan_terms_eq entry_points_def)
  qed
qed

text \<open>
  \<^const>\<open>max_by_snd\<close> returns the first element of greatest key: the elements before it
  are strictly smaller, those after it are not greater.
\<close>

lemma max_by_snd_split:
  "\<exists>pre post. b # xs = pre @ max_by_snd b xs # post \<and>
     (\<forall>x\<in>set pre. snd x < snd (max_by_snd b xs)) \<and>
     (\<forall>x\<in>set post. snd x \<le> snd (max_by_snd b xs))"
proof (induction xs arbitrary: b)
  case Nil
  show ?case by (intro exI[of _ "[]"]) simp
next
  case (Cons x xs)
  show ?case
  proof (cases "snd x > snd b")
    case True
    from Cons.IH[of x] obtain pre post where
      d: "x # xs = pre @ max_by_snd x xs # post" and
      l: "\<forall>y\<in>set pre. snd y < snd (max_by_snd x xs)" and
      r: "\<forall>y\<in>set post. snd y \<le> snd (max_by_snd x xs)" by blast
    have "x \<in> set (pre @ max_by_snd x xs # post)" using d by (metis list.set_intros(1))
    then have "snd x \<le> snd (max_by_snd x xs)" using l r by auto
    then have "snd b < snd (max_by_snd x xs)" using True by simp
    moreover have "b # x # xs = (b # pre) @ max_by_snd x xs # post" using d by simp
    ultimately show ?thesis using True l r
      by (metis max_by_snd.simps(2) set_ConsD)
  next
    case False
    from Cons.IH[of b] obtain pre post where
      d: "b # xs = pre @ max_by_snd b xs # post" and
      l: "\<forall>y\<in>set pre. snd y < snd (max_by_snd b xs)" and
      r: "\<forall>y\<in>set post. snd y \<le> snd (max_by_snd b xs)" by blast
    show ?thesis
    proof (cases pre)
      case Nil
      then have "b # x # xs = [] @ max_by_snd b xs # (x # post)" and "max_by_snd b xs = b"
        using d by auto
      then show ?thesis using False r
        by (intro exI[of _ "[]"] exI[of _ "x # post"]) auto
    next
      case (Cons p ps)
      then have pb: "p = b" and "xs = ps @ max_by_snd b xs # post" using d by auto
      then have "b # x # xs = (b # x # ps) @ max_by_snd b xs # post" by simp
      moreover have "snd b < snd (max_by_snd b xs)" using l Cons pb by auto
      ultimately show ?thesis using False l r Cons
        by (intro exI[of _ "b # x # ps"] exI[of _ post]) auto
    qed
  qed
qed

lemma map_filter_split:
  "map f (filter P tbl) = pre' @ m # post' \<Longrightarrow>
   \<exists>pre e post. tbl = pre @ e # post \<and> P e \<and> f e = m \<and>
      pre' = map f (filter P pre) \<and> post' = map f (filter P post)"
proof (induction tbl arbitrary: pre')
  case Nil
  then show ?case by simp
next
  case (Cons a tbl)
  show ?case
  proof (cases "P a")
    case False
    with Cons.prems have "map f (filter P tbl) = pre' @ m # post'" by simp
    from Cons.IH[OF this] obtain pre e post where
      "tbl = pre @ e # post" "P e" "f e = m" "pre' = map f (filter P pre)" "post' = map f (filter P post)"
      by blast
    with False show ?thesis
      by (intro exI[of _ "a # pre"] exI[of _ e] exI[of _ post]) simp
  next
    case True
    show ?thesis
    proof (cases pre')
      case Nil
      with True Cons.prems show ?thesis
        by (intro exI[of _ "[]"] exI[of _ a] exI[of _ tbl]) simp
    next
      case (Cons q qs)
      with True Cons.prems have "f a = q" and "map f (filter P tbl) = qs @ m # post'" by auto
      from Cons.IH[OF this(2)] obtain pre e post where
        "tbl = pre @ e # post" "P e" "f e = m" "qs = map f (filter P pre)" "post' = map f (filter P post)"
        by blast
      with True Cons \<open>f a = q\<close> show ?thesis
        by (intro exI[of _ "a # pre"] exI[of _ e] exI[of _ post]) simp
    qed
  qed
qed

lemma entry_points_nonneg: "e \<in> set KEYWORD_WEIGHTS \<Longrightarrow> 0 \<le> entry_points text e"
  by (auto simp: KEYWORD_WEIGHTS_def entry_points_def)

lemma keyword_scan:
  "scan_categories text KEYWORD_WEIGHTS (0, [], []) =
     (sum_list (map (entry_points text) KEYWORD_WEIGHTS),
      map (\<lambda>e. (fst e, entry_points text e)) (filter (\<lambda>e. 0 < entry_points text e) KEYWORD_WEIGHTS),
      concat (map (\<lambda>e. filter (\<lambda>t. str_in t text) (fst (snd e))) KEYWORD_WEIGHTS))"
proof -
  have d: "distinct (map fst KEYWORD_WEIGHTS)" by (simp add: KEYWORD_WEIGHTS_def)
  have "map (\<lambda>e. max 0 (entry_points text e)) KEYWORD_WEIGHTS = map (entry_points text) KEYWORD_WEIGHTS"
    by (rule map_cong) (auto simp: entry_points_nonneg max_def)
  with scan_categories_eq[OF d, of "[]" "text" 0 "[]"] show ?thesis by simp
qed

lemma score_locals_total:
  "fst (score_locals now it) = keyword_points it + recency_points now (published_at it)"
  by (simp add: score_locals_def keyword_scan keyword_points_def recency_points_def
      timedelta_days_def Let_def split: option.splits)

lemma score_locals_categories:
  "fst (snd (score_locals now it)) =
     map (\<lambda>e. (fst e, entry_points (haystack it) e))
       (filter (\<lambda>e. 0 < entry_points (haystack it) e) KEYWORD_WEIGHTS)"
  by (simp add: score_locals_def keyword_scan Let_def split: option.splits)

lemma recency_points_le: "recency_points now p \<le> 3"
  by (simp add: recency_points_def split: option.splits)

lemma sum_list_all_zero: "\<forall>x\<in>set xs. f x = (0::int) \<Longrightarrow> sum_list (map f xs) = 0"
  by (induction xs) auto

lemma sum_list_nonneg_ge:
  "\<forall>x\<in>set xs. (0::int) \<le> f x \<Longrightarrow> e \<in> set xs \<Longrightarrow> f e \<le> sum_list (map f xs)"
proof (induction xs)
  case Nil
  then show ?case by simp
next
  case (Cons a xs)
  have "0 \<le> sum_list (map f xs)" using Cons.prems(1) by (intro sum_list_nonneg) auto
  then show ?case using Cons by auto
qed

lemma keyword_points_pos_entry:
  assumes "0 < keyword_points it"
  shows "filter (\<lambda>e. 0 < entry_points (haystack it) e) KEYWORD_WEIGHTS \<noteq> []"
proof
  assume "filter (\<lambda>e. 0 < entry_points (haystack it) e) KEYWORD_WEIGHTS = []"
  then have "\<forall>e\<in>set KEYWORD_WEIGHTS. entry_points (haystack it) e = 0"
    using entry_points_nonneg[of _ "haystack it"] by (fastforce simp: filter_empty_conv)
  then have "sum_list (map (entry_points (haystack it)) KEYWORD_WEIGHTS) = 0"
    by (rule sum_list_all_zero)
  with assms show False by (simp add: keyword_points_def)
qed

lemma pricing_in_haystack:
  assumes "str_in ''pricing'' (link it)"
  shows "str_in ''pricing'' (haystack it)"
proof -
  have "str_in (lower ''pricing'') (lower (link it))" using assms by (rule str_in_lower)
  moreover have "lower ''pricing'' = ''pricing''" by (simp add: lower_def lower_char_def)
  ultimately have "str_in ''pricing'' (lower (title it @ '' '') @ lower (link it))"
    using str_in_append_right by simp
  then show ?thesis by (simp only: haystack_def lower_append append_assoc)
qed

lemma pricing_points:
  assumes "str_in ''pricing'' (haystack it)"
  shows "4 \<le> keyword_points it"
proof -
  let ?e = "(''pricing'',
        [''pricing'', ''price'', ''billing'', ''subscription'', ''usage-based'', ''seat''], 4::int)"
  have "?e \<in> set KEYWORD_WEIGHTS" by (simp add: KEYWORD_WEIGHTS_def)
  then have "entry_points (haystack it) ?e \<le> keyword_points it"
    unfolding keyword_points_def
    using sum_list_nonneg_ge[of KEYWORD_WEIGHTS "entry_points (haystack it)" ?e]
      entry_points_nonneg by blast
  moreover have "4 \<le> entry_points (haystack it) ?e"
    using assms by (simp add: entry_points_def)
  ultimately show ?thesis by linarith
qed

lemma only_pricing_points:
  assumes "str_in ''pricing'' (haystack it)" and "only_term_matched it ''pricing''"
  shows "keyword_points it = 4"
    and "filter (\<lambda>e. 0 < entry_points (haystack it) e) KEYWORD_WEIGHTS = [hd KEYWORD_WEIGHTS]"
  using assms
  by (simp_all add: only_term_matched_def keyword_points_def KEYWORD_WEIGHTS_def entry_points_def)

lemma keyword_points_published_at [simp]:
  "keyword_points (it\<lparr>published_at := p\<rparr>) = keyword_points it"
  by (simp add: keyword_points_def haystack_def)

text \<open>
  Claim C4, as amended. The value of \<^verbatim>\<open>total\<close> at line 193 is the sum of the keyword
  contributions of all table entries plus the recency bonus; \<^verbatim>\<open>score_item\<close> returns
  \<^verbatim>\<open>None\<close> exactly when that total is below 4, and otherwise an opportunity for the
  item whose score is the total: a total of 3 is discarded, a total of 4 is retained.
  An undated item whose link contains "pricing" is always retained, with a score
  of at least 4; its score is exactly 4 and its category is pricing when no other
  term of the table occurs in its lowercased title and link.
\<close>

theorem score_threshold:
  "fst (score_locals now it) = keyword_points it + recency_points now (published_at it) \<and>
   (case score_item now it of
      None \<Rightarrow> fst (score_locals now it) < 4
    | Some op \<Rightarrow> score op = fst (score_locals now it) \<and> 4 \<le> score op \<and> item op = it) \<and>
   (fst (score_locals now it) = 3 \<longrightarrow> score_item now it = None) \<and>
   (fst (score_locals now it) = 4 \<longrightarrow> (\<exists>op. score_item now it = Some op \<and> score op = 4)) \<and>
   (published_at it = None \<and> str_in ''pricing'' (link it) \<longrightarrow>
     (\<exists>op. score_item now it = Some op \<and> 4 \<le> score op)) \<and>
   (published_at it = None \<and> str_in ''pricing'' (link it) \<and> only_term_matched it ''pricing'' \<longrightarrow>
     (\<exists>op. score_item now it = Some op \<and> score op = 4 \<and> category op = ''pricing''))"
proof (intro conjI)
  obtain t cs ms where l: "score_locals now it = (t, cs, ms)" by (cases "score_locals now it")
  show tot: "fst (score_locals now it) = keyword_points it + recency_points now (published_at it)"
    by (rule score_locals_total)
  show "(case score_item now it of
      None \<Rightarrow> fst (score_locals now it) < 4
    | Some op \<Rightarrow> score op = fst (score_locals now it) \<and> 4 \<le> score op \<and> item op = it)"
    using l by (simp add: score_item_def)
  show "fst (score_locals now it) = 3 \<longrightarrow> score_item now it = None"
    using l by (simp add: score_item_def)
  show "fst (score_locals now it) = 4 \<longrightarrow> (\<exists>op. score_item now it = Some op \<and> score op = 4)"
    using l by (simp add: score_item_def)
  show "published_at it = None \<and> str_in ''pricing'' (link it) \<longrightarrow>
     (\<exists>op. score_item now it = Some op \<and> 4 \<le> score op)"
  proof
    assume a: "published_at it = None \<and> str_in ''pricing'' (link it)"
    then have "4 \<le> keyword_points it" using pricing_in_haystack pricing_points by blast
    then have "4 \<le> t" using tot l a by (simp add: recency_points_def)
    then show "\<exists>op. score_item now it = Some op \<and> 4 \<le> score op"
      using l by (simp add: score_item_def)
  qed
  show "published_at it = None \<and> str_in ''pricing'' (link it) \<and> only_term_matched it ''pricing'' \<longrightarrow>
     (\<exists>op. score_item now it = Some op \<and> score op = 4 \<and> category op = ''pricing'')"
  proof
    assume a: "published_at it = None \<and> str_in ''pricing'' (link it) \<and> only_term_matched it ''pricing''"
    then have h: "str_in ''pricing'' (haystack it)" using pricing_in_haystack by blast
    have "keyword_points it = 4" using only_pricing_points(1)[OF h] a by blast
    then have t4: "t = 4" using tot l a by (simp add: recency_points_def)
    have "cs = [(''pricing'', entry_points (haystack it) (hd KEYWORD_WEIGHTS))]"
      using score_locals_categories[of now it] l only_pricing_points(2)[OF h] a
      by (simp add: KEYWORD_WEIGHTS_def)
    then show "\<exists>op. score_item now it = Some op \<and> score op = 4 \<and> category op = ''pricing''"
      using l t4 by (simp add: score_item_def)
  qed
qed

text \<open>
  The theorem at two items without a date: one whose title holds "release" and
  nothing else of the table (total 3), one whose link holds "pricing" and nothing
  else (total 4).
\<close>

theorem score_threshold_witness:
  "fst (score_locals 0 \<lparr>title = ''Release notes'', link = ''https://example.com/notes'',
          published_at = None, source_feed = ''https://example.com/feed''\<rparr>) = 3 \<and>
   score_item 0 \<lparr>title = ''Release notes'', link = ''https://example.com/notes'',
          published_at = None, source_feed = ''https://example.com/feed''\<rparr> = None \<and>
   str_in ''pricing'' ''https://example.com/pricing'' \<and>
   only_term_matched \<lparr>title = ''Plans'', link = ''https://example.com/pricing'',
          published_at = None, source_feed = ''https://example.com/feed''\<rparr> ''pricing'' \<and>
   fst (score_locals 0 \<lparr>title = ''Plans'', link = ''https://example.com/pricing'',
          published_at = None, source_feed = ''https://example.com/feed''\<rparr>) = 4 \<and>
   (\<exists>op. score_item 0 \<lparr>title = ''Plans'', link = ''https://example.com/pricing'',
          published_at = None, source_feed = ''https://example.com/feed''\<rparr> = Some op \<and>
      score op = 4 \<and> category op = ''pricing'')"
proof -
  let ?r = "\<lparr>title = ''Release notes'', link = ''https://example.com/notes'',
          published_at = None, source_feed = ''https://example.com/feed''\<rparr>"
  let ?p = "\<lparr>title = ''Plans'', link = ''https://example.com/pricing'',
          published_at = None, source_feed = ''https://example.com/feed''\<rparr>"
  have r3: "fst (score_locals 0 ?r) = 3" by code_simp
  have p4: "fst (score_locals 0 ?p) = 4" by code_simp
  have s: "str_in ''pricing'' ''https://example.com/pricing''" by code_simp
  have o: "only_term_matched ?p ''pricing''" by code_simp
  have "score_item 0 ?r = None" using score_threshold[of 0 ?r] r3 by blast
  moreover have "\<exists>op. score_item 0 ?p = Some op \<and> score op = 4 \<and> category op = ''pricing''"
    using score_threshold[of 0 ?p] s o by simp
  ultimately show ?thesis using r3 p4 s o by blast
qed

text \<open>
  The claim as stated fails: an undated item whose link contains "pricing" and
  whose title is "AI agent" scores 12 and gets the category ai_automation.
\<close>

theorem pricing_link_scores_twelve:
  "str_in ''pricing'' ''https://example.com/pricing'' \<and>
   score_item 0 \<lparr>title = ''AI agent'', link = ''https://example.com/pricing'',
          published_at = None, source_feed = ''https://example.com/feed''\<rparr> =
     Some \<lparr>item = \<lparr>title = ''AI agent'', link = ''https://example.com/pricing'',
                   published_at = None, source_feed = ''https://example.com/feed''\<rparr>,
           score = 12, category = ''ai_automation'',
           matched_terms = [''agent'', ''ai'', ''pricing'']\<rparr>"
  by code_simp

text \<open>
  Claim C5. The recency bonus, the part of \<^verbatim>\<open>total\<close> that is not keyword
  contribution, is 3 for an item published at most 7 days before the clock
  reading, 1 for an older item published at most 30 days before it, and 0 for a
  still older item and for an item without a date. Both bounds are inclusive:
  exactly 7 days gives 3, one microsecond or one second more gives 1; exactly 30
  days gives 1, one microsecond more gives 0.
\<close>

theorem recency_bonus_tiers:
  "fst (score_locals now it) - keyword_points it =
     (case published_at it of
        None \<Rightarrow> 0
      | Some d \<Rightarrow> if now - d \<le> 7 * 86400000000 then 3
                  else if now - d \<le> 30 * 86400000000 then 1 else 0) \<and>
   fst (score_locals now (it\<lparr>published_at := Some (now - timedelta_days 7)\<rparr>))
     - keyword_points it = 3 \<and>
   fst (score_locals now (it\<lparr>published_at := Some (now - timedelta_days 7 - 1)\<rparr>))
     - keyword_points it = 1 \<and>
   fst (score_locals now (it\<lparr>published_at := Some (now - timedelta_days 7 - 1000000)\<rparr>))
     - keyword_points it = 1 \<and>
   fst (score_locals now (it\<lparr>published_at := Some (now - timedelta_days 30)\<rparr>))
     - keyword_points it = 1 \<and>
   fst (score_locals now (it\<lparr>published_at := Some (now - timedelta_days 30 - 1)\<rparr>))
     - keyword_points it = 0 \<and>
   fst (score_locals now (it\<lparr>published_at := None\<rparr>)) - keyword_points it = 0"
  by (simp add: score_locals_total recency_points_def timedelta_days_def)

text \<open>
  Claim C6. The category of a retained item is the category of a table entry of
  greatest keyword contribution, and of the first such entry in the order of the
  table: every entry before it contributes strictly less, no entry after it
  contributes more. (A retained item always has such an entry: the recency bonus
  alone stays below the threshold.)
\<close>

theorem category_first_maximal:
  assumes "score_item now it = Some op"
  shows "\<exists>pre e post. KEYWORD_WEIGHTS = pre @ e # post \<and> category op = fst e \<and>
           0 < entry_points (haystack it) e \<and>
           (\<forall>x\<in>set pre. entry_points (haystack it) x < entry_points (haystack it) e) \<and>
           (\<forall>x\<in>set post. entry_points (haystack it) x \<le> entry_points (haystack it) e)"
proof -
  let ?pts = "entry_points (haystack it)"
  let ?f = "\<lambda>e. (fst e, ?pts e)"
  let ?P = "\<lambda>e. 0 < ?pts e"
  obtain t cs ms where l: "score_locals now it = (t, cs, ms)" by (cases "score_locals now it")
  have cs: "cs = map ?f (filter ?P KEYWORD_WEIGHTS)"
    using score_locals_categories[of now it] l by simp
  have t: "t = keyword_points it + recency_points now (published_at it)"
    using score_locals_total[of now it] l by simp
  have "4 \<le> t" using assms l by (simp add: score_item_def split: if_splits)
  then have "0 < keyword_points it" using t recency_points_le[of now "published_at it"] by simp
  then have "cs \<noteq> []" using keyword_points_pos_entry cs by simp
  then obtain c cs' where ccs: "cs = c # cs'" by (cases cs) auto
  let ?m = "max_by_snd c cs'"
  have cat: "category op = fst ?m"
    using assms l ccs by (auto simp: score_item_def split: if_splits)
  from max_by_snd_split[of c cs'] obtain pre' post' where
    d: "c # cs' = pre' @ ?m # post'" and
    lo: "\<forall>x\<in>set pre'. snd x < snd ?m" and hi: "\<forall>x\<in>set post'. snd x \<le> snd ?m" by blast
  have "map ?f (filter ?P KEYWORD_WEIGHTS) = pre' @ ?m # post'" using d ccs cs by simp
  from map_filter_split[OF this] obtain pre e post where
    k: "KEYWORD_WEIGHTS = pre @ e # post" and pe: "?P e" and fe: "?f e = ?m" and
    pre': "pre' = map ?f (filter ?P pre)" and post': "post' = map ?f (filter ?P post)" by blast
  have m: "snd ?m = ?pts e" "fst ?m = fst e" using fe by (metis snd_conv, metis fst_conv)
  have "\<forall>x\<in>set pre. ?pts x < ?pts e"
  proof
    fix x assume x: "x \<in> set pre"
    show "?pts x < ?pts e"
    proof (cases "?P x")
      case True
      then have "?f x \<in> set pre'" using x pre' by auto
      then show ?thesis using lo m by auto
    next
      case False
      then show ?thesis using pe by simp
    qed
  qed
  moreover have "\<forall>x\<in>set post. ?pts x \<le> ?pts e"
  proof
    fix x assume x: "x \<in> set post"
    show "?pts x \<le> ?pts e"
    proof (cases "?P x")
      case True
      then have "?f x \<in> set post'" using x post' by auto
      then show ?thesis using hi m by auto
    next
      case False
      then show ?thesis using pe by simp
    qed
  qed
  ultimately show ?thesis using k cat m pe
    by (intro exI[of _ pre] exI[of _ e] exI[of _ post]) simp
qed

text \<open>
  The theorem at an item that matches one term of pricing and one of
  ai_automation, 4 points each: the tie goes to pricing, the earlier entry.
\<close>

theorem category_first_maximal_witness:
  "score_item 0 \<lparr>title = ''AI pricing'', link = ''https://example.com/post'',
          published_at = None, source_feed = ''https://example.com/feed''\<rparr> =
     Some \<lparr>item = \<lparr>title = ''AI pricing'', link = ''https://example.com/post'',
                   published_at = None, source_feed = ''https://example.com/feed''\<rparr>,
           score = 8, category = ''pricing'', matched_terms = [''ai'', ''pricing'']\<rparr> \<and>
   (\<exists>pre e post. KEYWORD_WEIGHTS = pre @ e # post \<and> ''pricing'' = fst e \<and>
      0 < entry_points (haystack \<lparr>title = ''AI pricing'', link = ''https://example.com/post'',
          published_at = None, source_feed = ''https://example.com/feed''\<rparr>) e)"
proof -
  let ?i = "\<lparr>title = ''AI pricing'', link = ''https://example.com/post'',
          published_at = None, source_feed = ''https://example.com/feed''\<rparr>"
  let ?o = "\<lparr>item = ?i, score = 8, category = ''pricing'', matched_terms = [''ai'', ''pricing'']\<rparr>"
  have s: "score_item 0 ?i = Some ?o" by code_simp
  from category_first_maximal[OF s] obtain pre e post where
    k: "KEYWORD_WEIGHTS = pre @ e # post" and c: "category ?o = fst e" and
    p: "0 < entry_points (haystack ?i) e"
    by blast
  have c': "''pricing'' = fst e" using c by simp
  have "\<exists>pre e post. KEYWORD_WEIGHTS = pre @ e # post \<and> ''pricing'' = fst e \<and>
      0 < entry_points (haystack ?i) e" using k c' p by blast
  with s show ?thesis by blast
qed

section \<open>Properties of the ranking\<close>








text \<open>
  Top-N selection, line 365: a negative cap selects nothing, as the cap 0 does.
\<close>

lemma take_top_negative: "cap < 0 \<Longrightarrow> take_top cap ops = []"
  by (simp add: take_top_def)

section \<open>Properties of the loader\<close>


section \<open>Properties of the merge\<close>

lemma map_of_dict_set: "map_of (dict_set kvs k v) = (map_of kvs)(k \<mapsto> v)"
  by (induction kvs) (auto simp: fun_eq_iff)

lemma refresh_task_Inr:
  assumes "refresh_task lib now op t = Inr t'"
  shows "\<exists>kvs kvs'. t = JObj kvs \<and> t' = JObj kvs' \<and>
      map_of kvs' = (map_of kvs)(''updated_at'' \<mapsto> JStr (isoformat lib now),
         ''score'' \<mapsto> JInt (score op),
         ''matched_terms'' \<mapsto> JArr (map JStr (matched_terms op)),
         ''action_plan'' \<mapsto> build_action_plan op)"
  using assms by (cases t) (auto simp: refresh_task_def err_bind_def map_of_dict_set)

lemma refresh_task_same_task:
  assumes "refresh_task lib now op t = Inr t'"
  shows "same_task t t'" and "task_link t' = task_link t"
proof -
  from refresh_task_Inr[OF assms] obtain kvs kvs' where
    t: "t = JObj kvs" "t' = JObj kvs'" and
    m: "map_of kvs' = (map_of kvs)(''updated_at'' \<mapsto> JStr (isoformat lib now),
         ''score'' \<mapsto> JInt (score op),
         ''matched_terms'' \<mapsto> JArr (map JStr (matched_terms op)),
         ''action_plan'' \<mapsto> build_action_plan op)" by blast
  show "same_task t t'" using t m by (auto simp: same_task_def refreshed_fields_def)
  show "task_link t' = task_link t" using t m by (simp add: task_link_def)
qed

lemma same_task_refl [simp]: "same_task t t"
  by (simp add: same_task_def)

lemma same_task_trans: "same_task a b \<Longrightarrow> same_task b c \<Longrightarrow> same_task a c"
  unfolding same_task_def by (elim disjE exE conjE) auto

lemma merge_step_cases:
  assumes "merge_step lib clock a app st op = Inr st'"
  obtains (refresh) i t where
      "existing_by_source st (link (item op)) = Some i" "i < length (existing_tasks st)"
      "refresh_task lib (clock (tick_now st)) op (existing_tasks st ! i) = Inr t"
      "st' = st\<lparr>existing_tasks := (existing_tasks st)[i := t], tick_now := Suc (tick_now st)\<rparr>"
  | (skip) "existing_by_source st (link (item op)) = None"
      "nat (max 0 (max_new_tickets a)) \<le> created_tasks st" "st' = st"
  | (create) rel task content fs' changed where
      "existing_by_source st (link (item op)) = None"
      "created_tasks st < nat (max 0 (max_new_tickets a))" "app"
      "rel = path_join (tickets_dir a)
               (strftime_Ymd lib (clock (tick_now st)) @ ''-'' @ slugify (title (item op)) @ ''.md'')"
      "task = new_task lib op (build_action_plan op) rel
                (clock (tick_now st + 1)) (clock (tick_now st + 2))"
      "create_ticket_content lib op task = Inr content"
      "write_if_changed (fs_now st) (path_join (repo_root a) rel) content = Inr (fs', changed)"
      "st' = st\<lparr>existing_tasks := existing_tasks st @ [task],
                existing_by_source := (existing_by_source st)(link (item op) \<mapsto> length (existing_tasks st)),
                created_tasks := Suc (created_tasks st),
                created_ticket_paths := created_ticket_paths st @ [rel],
                fs_now := fs', tick_now := tick_now st + 3\<rparr>"
  using assms
  by (auto simp: merge_step_def Let_def err_bind_def
      split: option.splits if_splits sum.splits prod.splits)






lemma task_link_new_task [simp]:
  "task_link (new_task lib op plan rel c u) = Some (link (item op))"
  by (simp add: task_link_def new_task_def)

lemma merge_step_sound:
  assumes "merge_step lib clock a app st op = Inr st'" and "index_sound st"
  shows "index_sound st'"
  using assms(1)
proof (cases rule: merge_step_cases)
  case (refresh i t)
  have tl: "task_link t = task_link (existing_tasks st ! i)"
    using refresh_task_same_task(2)[OF refresh(3)] .
  show ?thesis
    unfolding index_sound_def
  proof (intro allI impI)
    fix l j assume "existing_by_source st' l = Some j"
    then have "existing_by_source st l = Some j" using refresh(4) by simp
    then have j: "j < length (existing_tasks st)" "task_link (existing_tasks st ! j) = Some l"
      using assms(2) by (auto simp: index_sound_def)
    then show "j < length (existing_tasks st') \<and> task_link (existing_tasks st' ! j) = Some l"
      using refresh(4) tl by (cases "j = i") (auto simp: nth_list_update)
  qed
next
  case skip
  then show ?thesis using assms(2) by simp
next
  case (create rel task content fs' changed)
  show ?thesis
    unfolding index_sound_def
  proof (intro allI impI)
    fix l j assume a: "existing_by_source st' l = Some j"
    show "j < length (existing_tasks st') \<and> task_link (existing_tasks st' ! j) = Some l"
    proof (cases "l = link (item op)")
      case True
      then have "j = length (existing_tasks st)" using a create(8) by simp
      then show ?thesis using create(5,8) True by simp
    next
      case False
      then have "existing_by_source st l = Some j" using a create(8) by simp
      then have "j < length (existing_tasks st)" "task_link (existing_tasks st ! j) = Some l"
        using assms(2) by (auto simp: index_sound_def)
      then show ?thesis using create(8) by (simp add: nth_append)
    qed
  qed
qed

text \<open>What one iteration keeps and what it may change.\<close>

lemma merge_step_facts:
  assumes "merge_step lib clock a app st op = Inr st'"
  shows "created_tasks st \<le> created_tasks st'"
    and "length (existing_tasks st') = length (existing_tasks st) + (created_tasks st' - created_tasks st)"
    and "length (created_ticket_paths st')
           = length (created_ticket_paths st) + (created_tasks st' - created_tasks st)"
    and "created_tasks st' \<le> max (created_tasks st) (nat (max 0 (max_new_tickets a)))"
    and "\<forall>i<length (existing_tasks st). same_task (existing_tasks st ! i) (existing_tasks st' ! i)"
    and "\<forall>i<length (existing_tasks st).
           task_link (existing_tasks st' ! i) = task_link (existing_tasks st ! i)"
    and "\<forall>i. length (existing_tasks st) \<le> i \<and> i < length (existing_tasks st') \<longrightarrow>
           task_link (existing_tasks st' ! i) = Some (link (item op))"
    and "\<forall>l i. existing_by_source st l = Some i \<longrightarrow> existing_by_source st' l = Some i"
    and "created_tasks st' = created_tasks st \<longrightarrow>
           fs_now st' = fs_now st \<and> created_ticket_paths st' = created_ticket_paths st"
proof -
  from assms show "created_tasks st \<le> created_tasks st'"
    by (cases rule: merge_step_cases) auto
  from assms show "length (existing_tasks st')
      = length (existing_tasks st) + (created_tasks st' - created_tasks st)"
    by (cases rule: merge_step_cases) auto
  from assms show "length (created_ticket_paths st')
      = length (created_ticket_paths st) + (created_tasks st' - created_tasks st)"
    by (cases rule: merge_step_cases) auto
  from assms show "created_tasks st' \<le> max (created_tasks st) (nat (max 0 (max_new_tickets a)))"
    by (cases rule: merge_step_cases) auto
  from assms show
    "\<forall>i<length (existing_tasks st). same_task (existing_tasks st ! i) (existing_tasks st' ! i)"
    by (cases rule: merge_step_cases)
      (auto simp: nth_list_update nth_append dest: refresh_task_same_task(1))
  from assms show "\<forall>i<length (existing_tasks st).
      task_link (existing_tasks st' ! i) = task_link (existing_tasks st ! i)"
    by (cases rule: merge_step_cases)
      (auto simp: nth_list_update nth_append dest: refresh_task_same_task(2))
  from assms show "\<forall>i. length (existing_tasks st) \<le> i \<and> i < length (existing_tasks st') \<longrightarrow>
      task_link (existing_tasks st' ! i) = Some (link (item op))"
    by (cases rule: merge_step_cases) (auto simp: nth_append)
  from assms show "\<forall>l i. existing_by_source st l = Some i \<longrightarrow> existing_by_source st' l = Some i"
    by (cases rule: merge_step_cases) auto
  from assms show "created_tasks st' = created_tasks st \<longrightarrow>
      fs_now st' = fs_now st \<and> created_ticket_paths st' = created_ticket_paths st"
    by (cases rule: merge_step_cases) auto
qed

lemma merge_loop_sound:
  assumes "merge_loop lib clock a app st ops = Inr st'" and "index_sound st"
  shows "index_sound st'"
  using assms
proof (induction ops arbitrary: st)
  case Nil
  then show ?case by simp
next
  case (Cons op ops)
  from Cons.prems(1) obtain st1 where
    s: "merge_step lib clock a app st op = Inr st1" and
    l: "merge_loop lib clock a app st1 ops = Inr st'"
    by (auto simp: err_bind_def split: sum.splits)
  from Cons.IH[OF l merge_step_sound[OF s Cons.prems(2)]] show ?case .
qed

text \<open>What the whole loop keeps and what it may change.\<close>

lemma merge_loop_facts:
  assumes "merge_loop lib clock a app st ops = Inr st'"
  shows "created_tasks st \<le> created_tasks st'"
    and "length (existing_tasks st') = length (existing_tasks st) + (created_tasks st' - created_tasks st)"
    and "length (created_ticket_paths st')
           = length (created_ticket_paths st) + (created_tasks st' - created_tasks st)"
    and "created_tasks st' \<le> max (created_tasks st) (nat (max 0 (max_new_tickets a)))"
    and "\<forall>i<length (existing_tasks st). same_task (existing_tasks st ! i) (existing_tasks st' ! i)"
    and "\<forall>i<length (existing_tasks st).
           task_link (existing_tasks st' ! i) = task_link (existing_tasks st ! i)"
    and "\<forall>i. length (existing_tasks st) \<le> i \<and> i < length (existing_tasks st') \<longrightarrow>
           task_link (existing_tasks st' ! i) \<in> (\<lambda>op. Some (link (item op))) ` set ops"
    and "\<forall>l i. existing_by_source st l = Some i \<longrightarrow> existing_by_source st' l = Some i"
    and "created_tasks st' = created_tasks st \<longrightarrow>
           fs_now st' = fs_now st \<and> created_ticket_paths st' = created_ticket_paths st"
  using assms
proof (induction ops arbitrary: st)
  case Nil
  {
    case 1 then show ?case by simp
  next
    case 2 then show ?case by simp
  next
    case 3 then show ?case by simp
  next
    case 4 then show ?case by simp
  next
    case 5 then show ?case by simp
  next
    case 6 then show ?case by simp
  next
    case 7 then show ?case by simp
  next
    case 8 then show ?case by simp
  next
    case 9 then show ?case by simp
  }
next
  case (Cons op ops)
  {
    case 1
    then obtain st1 where
      s: "merge_step lib clock a app st op = Inr st1" and
      l: "merge_loop lib clock a app st1 ops = Inr st'"
      by (auto simp: err_bind_def split: sum.splits)
    show ?case using merge_step_facts(1)[OF s] Cons.IH(1)[OF l] by simp
  next
    case 2
    then obtain st1 where
      s: "merge_step lib clock a app st op = Inr st1" and
      l: "merge_loop lib clock a app st1 ops = Inr st'"
      by (auto simp: err_bind_def split: sum.splits)
    show ?case
      using merge_step_facts(1,2)[OF s] Cons.IH(1,2)[OF l] by simp
  next
    case 3
    then obtain st1 where
      s: "merge_step lib clock a app st op = Inr st1" and
      l: "merge_loop lib clock a app st1 ops = Inr st'"
      by (auto simp: err_bind_def split: sum.splits)
    show ?case
      using merge_step_facts(1,3)[OF s] Cons.IH(1,3)[OF l] by simp
  next
    case 4
    then obtain st1 where
      s: "merge_step lib clock a app st op = Inr st1" and
      l: "merge_loop lib clock a app st1 ops = Inr st'"
      by (auto simp: err_bind_def split: sum.splits)
    show ?case
      using merge_step_facts(4)[OF s] Cons.IH(4)[OF l] by (simp add: max_def split: if_splits)
  next
    case 5
    then obtain st1 where
      s: "merge_step lib clock a app st op = Inr st1" and
      l: "merge_loop lib clock a app st1 ops = Inr st'"
      by (auto simp: err_bind_def split: sum.splits)
    have le: "length (existing_tasks st) \<le> length (existing_tasks st1)"
      using merge_step_facts(2)[OF s] by simp
    show ?case
    proof (intro allI impI)
      fix i assume i: "i < length (existing_tasks st)"
      then have "same_task (existing_tasks st ! i) (existing_tasks st1 ! i)"
        using merge_step_facts(5)[OF s] by blast
      moreover have "same_task (existing_tasks st1 ! i) (existing_tasks st' ! i)"
        using Cons.IH(5)[OF l] i le by simp
      ultimately show "same_task (existing_tasks st ! i) (existing_tasks st' ! i)"
        by (rule same_task_trans)
    qed
  next
    case 6
    then obtain st1 where
      s: "merge_step lib clock a app st op = Inr st1" and
      l: "merge_loop lib clock a app st1 ops = Inr st'"
      by (auto simp: err_bind_def split: sum.splits)
    have le: "length (existing_tasks st) \<le> length (existing_tasks st1)"
      using merge_step_facts(2)[OF s] by simp
    show ?case using merge_step_facts(6)[OF s] Cons.IH(6)[OF l] le by simp
  next
    case 7
    then obtain st1 where
      s: "merge_step lib clock a app st op = Inr st1" and
      l: "merge_loop lib clock a app st1 ops = Inr st'"
      by (auto simp: err_bind_def split: sum.splits)
    show ?case
    proof (intro allI impI)
      fix i assume i: "length (existing_tasks st) \<le> i \<and> i < length (existing_tasks st')"
      show "task_link (existing_tasks st' ! i) \<in> (\<lambda>op. Some (link (item op))) ` set (op # ops)"
      proof (cases "i < length (existing_tasks st1)")
        case True
        then have "task_link (existing_tasks st' ! i) = task_link (existing_tasks st1 ! i)"
          using Cons.IH(6)[OF l] by simp
        also have "\<dots> = Some (link (item op))"
          using merge_step_facts(7)[OF s] i True by simp
        finally show ?thesis by simp
      next
        case False
        then have "task_link (existing_tasks st' ! i) \<in> (\<lambda>op. Some (link (item op))) ` set ops"
          using Cons.IH(7)[OF l] i by simp
        then show ?thesis by auto
      qed
    qed
  next
    case 8
    then obtain st1 where
      s: "merge_step lib clock a app st op = Inr st1" and
      l: "merge_loop lib clock a app st1 ops = Inr st'"
      by (auto simp: err_bind_def split: sum.splits)
    show ?case using merge_step_facts(8)[OF s] Cons.IH(8)[OF l] by blast
  next
    case 9
    then obtain st1 where
      s: "merge_step lib clock a app st op = Inr st1" and
      l: "merge_loop lib clock a app st1 ops = Inr st'"
      by (auto simp: err_bind_def split: sum.splits)
    have "created_tasks st \<le> created_tasks st1" "created_tasks st1 \<le> created_tasks st'"
      using merge_step_facts(1)[OF s] Cons.IH(1)[OF l] by auto
    then show ?case using merge_step_facts(9)[OF s] Cons.IH(9)[OF l] by auto
  }
qed





lemma merge_tasks_Inr:
  assumes "merge_tasks lib clock a app tasks fs tick tops = Inr st'"
  obtains m where "index_tasks tasks 0 Map.empty = Inr m"
    and "merge_loop lib clock a app
        \<lparr>existing_tasks = tasks, existing_by_source = m, created_tasks = 0,
         created_ticket_paths = [], fs_now = fs, tick_now = tick\<rparr> tops = Inr st'"
  using assms by (auto simp: merge_tasks_def err_bind_def split: sum.splits)

lemma field_JObj [simp]: "field (JObj kvs) k = map_of kvs k"
  by (simp add: field_def)










lemma merge_step_negative_cap:
  assumes "max_new_tickets a < 0"
  shows "merge_step lib clock a app st op = merge_step lib clock (a\<lparr>max_new_tickets := 0\<rparr>) app st op"
  using assms by (simp add: merge_step_def Let_def)

lemma merge_loop_negative_cap:
  assumes "max_new_tickets a < 0"
  shows "merge_loop lib clock a app st ops = merge_loop lib clock (a\<lparr>max_new_tickets := 0\<rparr>) app st ops"
  by (induction ops arbitrary: st) (simp_all add: merge_step_negative_cap[OF assms])

text \<open>
  Claim C10. A negative \<^verbatim>\<open>max_opportunities\<close> selects no top opportunity, as 0
  does. With a negative \<^verbatim>\<open>max_new_tickets\<close> the merge runs as with 0: where it
  completes it creates no task, records no ticket path, leaves the task list at
  its length and writes no file.
\<close>

theorem negative_caps_act_as_zero:
  "(cap < 0 \<longrightarrow> take_top cap ops = [] \<and> take_top cap ops = take_top 0 ops) \<and>
   (max_opportunities a < 0 \<longrightarrow>
      fst (snd (snd (select_top clock a fetched_items))) = []) \<and>
   (max_new_tickets a < 0 \<longrightarrow>
      merge_tasks lib clock a app tasks fs tick tops
        = merge_tasks lib clock (a\<lparr>max_new_tickets := 0\<rparr>) app tasks fs tick tops) \<and>
   (max_new_tickets a < 0 \<and> merge_tasks lib clock a app tasks fs tick tops = Inr st' \<longrightarrow>
      created_tasks st' = 0 \<and> created_ticket_paths st' = [] \<and>
      length (existing_tasks st') = length tasks \<and> fs_now st' = fs)"
proof (intro conjI impI)
  assume "cap < 0"
  then show "take_top cap ops = []" and "take_top cap ops = take_top 0 ops"
    by (simp_all add: take_top_def)
next
  assume "max_opportunities a < 0"
  then show "fst (snd (snd (select_top clock a fetched_items))) = []"
    by (simp add: select_top_def take_top_def Let_def split: prod.splits)
next
  assume "max_new_tickets a < 0"
  then show "merge_tasks lib clock a app tasks fs tick tops
        = merge_tasks lib clock (a\<lparr>max_new_tickets := 0\<rparr>) app tasks fs tick tops"
    by (simp add: merge_tasks_def merge_loop_negative_cap)
next
  assume h: "max_new_tickets a < 0 \<and> merge_tasks lib clock a app tasks fs tick tops = Inr st'"
  then obtain m where
    l: "merge_loop lib clock a app
        \<lparr>existing_tasks = tasks, existing_by_source = m, created_tasks = 0,
         created_ticket_paths = [], fs_now = fs, tick_now = tick\<rparr> tops = Inr st'"
    using merge_tasks_Inr by blast
  note f = merge_loop_facts[OF l]
  have c: "created_tasks st' = 0" using f(4) h by simp
  show "created_tasks st' = 0" by (rule c)
  show "created_ticket_paths st' = []" using f(9) c by simp
  show "length (existing_tasks st') = length tasks" using f(2) c by simp
  show "fs_now st' = fs" using f(9) c by simp
qed

section \<open>The merge on the scenario\<close>







text \<open>Claim C10 on the scenario, with both caps negative.\<close>

theorem negative_caps_act_as_zero_witness:
  "(- 3 :: int) < 0 \<and> take_top (- 3) [demo_op1, demo_op2] = [] \<and>
   max_new_tickets (demo_args\<lparr>max_new_tickets := - 1\<rparr>) < 0 \<and>
   max_opportunities (demo_args\<lparr>max_opportunities := - 3\<rparr>) < 0 \<and>
   fst (snd (snd (select_top (\<lambda>n. demo_now) (demo_args\<lparr>max_opportunities := - 3\<rparr>)
      demo_items))) = [] \<and>
   \<not> isl (merge_tasks demo_lib (\<lambda>n. demo_now) (demo_args\<lparr>max_new_tickets := - 1\<rparr>) True []
            demo_fs 0 [demo_op1, demo_op2]) \<and>
   created_tasks (projr (merge_tasks demo_lib (\<lambda>n. demo_now)
      (demo_args\<lparr>max_new_tickets := - 1\<rparr>) True [] demo_fs 0 [demo_op1, demo_op2])) = 0 \<and>
   existing_tasks (projr (merge_tasks demo_lib (\<lambda>n. demo_now)
      (demo_args\<lparr>max_new_tickets := - 1\<rparr>) True [] demo_fs 0 [demo_op1, demo_op2])) = [] \<and>
   fs_now (projr (merge_tasks demo_lib (\<lambda>n. demo_now)
      (demo_args\<lparr>max_new_tickets := - 1\<rparr>) True [] demo_fs 0 [demo_op1, demo_op2])) = demo_fs"
proof -
  let ?a = "demo_args\<lparr>max_new_tickets := - 1\<rparr>"
  let ?r = "merge_tasks demo_lib (\<lambda>n. demo_now) ?a True [] demo_fs 0 [demo_op1, demo_op2]"
  have ok: "\<not> isl ?r" by code_simp
  then have r: "?r = Inr (projr ?r)" by simp
  have n: "max_new_tickets ?a < 0" by simp
  have o: "max_opportunities (demo_args\<lparr>max_opportunities := - 3\<rparr>) < 0" by simp
  note t = negative_caps_act_as_zero[where cap = "- 3" and ops = "[demo_op1, demo_op2]"
      and a = ?a and lib = demo_lib and clock = "\<lambda>n. demo_now" and app = True and tasks = "[]"
      and fs = demo_fs and tick = 0 and tops = "[demo_op1, demo_op2]" and st' = "projr ?r"]
  note t2 = negative_caps_act_as_zero[where a = "demo_args\<lparr>max_opportunities := - 3\<rparr>"
      and clock = "\<lambda>n. demo_now" and fetched_items = demo_items]
  have a1: "take_top (- 3) [demo_op1, demo_op2] = []" using t by simp
  have a2: "fst (snd (snd (select_top (\<lambda>n. demo_now) (demo_args\<lparr>max_opportunities := - 3\<rparr>)
      demo_items))) = []" using t2 o by blast
  have a3: "created_tasks (projr ?r) = 0 \<and> created_ticket_paths (projr ?r) = [] \<and>
      length (existing_tasks (projr ?r)) = length ([] :: json list) \<and> fs_now (projr ?r) = demo_fs"
    using t n r by blast
  show ?thesis using a1 a2 a3 ok n o by simp
qed

end
